theory Spec2Isabelle
  imports Complex_Main
begin

section \<open>The location giveaway page: data\<close>

text \<open>
  The program is one script, \<^verbatim>\<open>streamlit_app.py\<close>. Its state is the framework's session
  state with three keys (\<^verbatim>\<open>page\<close>, \<^verbatim>\<open>participants\<close>, \<^verbatim>\<open>winner\<close>); its page functions read
  and assign that state. The model passes the state explicitly.

  A Python float is a binary64 number or NaN. A number is modelled by the real it
  denotes, and every operation of the script that rounds says so: the rounding and the
  library's \<^verbatim>\<open>sin\<close>, \<^verbatim>\<open>cos\<close> and \<^verbatim>\<open>atan2\<close> are parameters (\<open>arith\<close> below), as the
  conversion of strings to numbers is. The infinities are not modelled.
\<close>

datatype pyfloat = Num real | NaN

datatype exn = ValueError | KeyError | AttributeError | ReadError

text \<open>
  The label of a row in the frame's index. \<^verbatim>\<open>read_csv\<close> on line 91 is called without
  \<^verbatim>\<open>index_col\<close>: when the rows have as many fields as the header, the index is the row
  number; when they have one field more, the first field becomes the index, and the
  same label may then stand on several rows.
\<close>

datatype row_label = Position nat | Field string

text \<open>
  A row of the \<^verbatim>\<open>participants\<close> frame after a successful upload: its label, the two
  columns of the file and the three the upload adds. A cell of the \<^verbatim>\<open>coordinates\<close> column
  is a string, or missing (\<open>None\<close>) where the file has an empty field.
\<close>

record participant =
  label :: row_label
  name :: string
  coordinates :: "string option"
  latitude :: pyfloat
  longitude :: pyfloat
  distance_km :: pyfloat

text \<open>
  What \<^verbatim>\<open>.loc[label]\<close> gives: the row with that label, or, when several rows carry the
  label, the frame of all of them.
\<close>

datatype selection = Row participant | Rows "participant list"

text \<open>
  The session state. \<^verbatim>\<open>participants\<close> and \<^verbatim>\<open>winner\<close> start as \<^verbatim>\<open>None\<close> (lines 51 to 56).
  The frame is the list of its rows in file order.
\<close>

record session =
  page :: string
  participants :: "participant list option"
  winner :: "selection option"

definition initial_session :: session where
  "initial_session = \<lparr>page = ''upload'', participants = None, winner = None\<rparr>"

section \<open>Floating-point arithmetic\<close>

text \<open>
  The arithmetic the script runs on: \<open>rnd\<close> takes the exact result of an operation to
  the float that is returned; \<open>fsin\<close>, \<open>fcos\<close> and \<open>fatan2\<close> are the functions of the
  \<^verbatim>\<open>math\<close> module on floats.
\<close>

record arith =
  rnd :: "real \<Rightarrow> real"
  fsin :: "real \<Rightarrow> real"
  fcos :: "real \<Rightarrow> real"
  fatan2 :: "real \<Rightarrow> real \<Rightarrow> real"

text \<open>\<^verbatim>\<open>math.atan2(y, x)\<close> on the reals: the angle of the point \<open>(x, y)\<close>, in \<open>(-pi, pi]\<close>.\<close>

definition atan2 :: "real \<Rightarrow> real \<Rightarrow> real" where
  "atan2 y x =
     (if 0 < x then arctan (y / x)
      else if x < 0 then (if 0 \<le> y then arctan (y / x) + pi else arctan (y / x) - pi)
      else if 0 < y then pi / 2
      else if y < 0 then - (pi / 2)
      else 0)"

text \<open>Arithmetic without rounding.\<close>

definition exact_arith :: arith where
  "exact_arith = \<lparr>rnd = (\<lambda>x. x), fsin = sin, fcos = cos, fatan2 = atan2\<rparr>"

text \<open>
  Binary64 arithmetic, rounding to nearest with ties to even: \<open>binade x\<close> is the exponent
  of \<open>x\<close>, and \<open>round64 x\<close> the nearest number with 53 significant bits. The limits of the
  exponent (overflow, subnormal numbers) are not modelled.
\<close>

definition rne :: "real \<Rightarrow> int" where
  "rne x =
     (let f = \<lfloor>x\<rfloor>; r = x - of_int f
      in if r < 1 / 2 then f else if 1 / 2 < r then f + 1 else if even f then f else f + 1)"

definition binade :: "real \<Rightarrow> int" where
  "binade x = \<lfloor>log 2 \<bar>x\<bar>\<rfloor>"

definition round64 :: "real \<Rightarrow> real" where
  "round64 x =
     (if x = 0 then 0
      else of_int (rne (x / 2 powr (of_int (binade x) - 52))) * 2 powr (of_int (binade x) - 52))"

text \<open>
  \<^verbatim>\<open>math.sin\<close> and \<^verbatim>\<open>math.cos\<close>, the sine and cosine of the C library, taken to return the
  float nearest to the exact value.
\<close>

definition libm_sin :: "real \<Rightarrow> real" where
  "libm_sin x = round64 (sin x)"

definition libm_cos :: "real \<Rightarrow> real" where
  "libm_cos x = round64 (cos x)"

definition binary64 :: arith where
  "binary64 =
     \<lparr>rnd = round64, fsin = libm_sin, fcos = libm_cos, fatan2 = (\<lambda>y x. round64 (atan2 y x))\<rparr>"

text \<open>
  The arithmetic keeps signs: rounding a non-negative number gives a non-negative
  number, and the angle of a point of the first quadrant is not negative.
\<close>

definition sign_preserving :: "arith \<Rightarrow> bool" where
  "sign_preserving ar \<longleftrightarrow>
     (\<forall>x. 0 \<le> x \<longrightarrow> 0 \<le> rnd ar x) \<and> (\<forall>y x. 0 \<le> y \<longrightarrow> 0 \<le> x \<longrightarrow> 0 \<le> fatan2 ar y x)"

section \<open>calculate_distance\<close>

text \<open>
  Line 59. The two literals denote the floats \<^verbatim>\<open>-0x1.0ef0cf2da0914p+5\<close> and
  \<^verbatim>\<open>0x1.2e1c78595fc1bp+7\<close>.
\<close>

definition GIVEAWAY_LOCATION :: "real \<times> real" where
  "GIVEAWAY_LOCATION = (- (1191609630097989 / 2 ^ 45), 5314796636732443 / 2 ^ 45)"

text \<open>
  \<^verbatim>\<open>math.radians(x)\<close> multiplies by the float nearest to \<open>pi / 180\<close>,
  \<^verbatim>\<open>0x1.1df46a2529d39p-6\<close>.
\<close>

definition deg_to_rad :: real where
  "deg_to_rad = 5030569068109113 / 2 ^ 58"

definition radians :: "arith \<Rightarrow> real \<Rightarrow> real" where
  "radians ar x = rnd ar (x * deg_to_rad)"

text \<open>\<^verbatim>\<open>math.sqrt\<close> raises \<^verbatim>\<open>ValueError\<close> (math domain error) on a negative argument.\<close>

definition py_sqrt :: "arith \<Rightarrow> real \<Rightarrow> exn + real" where
  "py_sqrt ar x = (if x < 0 then Inl ValueError else Inr (rnd ar (sqrt x)))"

text \<open>
  Lines 64 to 71: the value of the variable \<^verbatim>\<open>a\<close>, with the operations in the order
  Python evaluates them. \<^verbatim>\<open>x**2\<close> is the rounded square.
\<close>

definition haversine_a :: "arith \<Rightarrow> real \<Rightarrow> real \<Rightarrow> real \<Rightarrow> real \<Rightarrow> real" where
  "haversine_a ar lat1 lon1 lat2 lon2 =
     (let lat1 = radians ar lat1;
          lon1 = radians ar lon1;
          lat2 = radians ar lat2;
          lon2 = radians ar lon2;
          dlon = rnd ar (lon2 - lon1);
          dlat = rnd ar (lat2 - lat1);
          s1 = fsin ar (rnd ar (dlat / 2));
          s2 = fsin ar (rnd ar (dlon / 2))
      in rnd ar (rnd ar (s1 * s1)
                 + rnd ar (rnd ar (fcos ar lat1 * fcos ar lat2) * rnd ar (s2 * s2))))"

text \<open>
  Lines 62 to 72. There is no clamp on \<^verbatim>\<open>a\<close>: \<^verbatim>\<open>math.sqrt\<close> is applied to \<^verbatim>\<open>a\<close> and then to
  \<^verbatim>\<open>1-a\<close> as computed, and raises on a negative one. A NaN argument makes \<^verbatim>\<open>a\<close> NaN, and
  \<^verbatim>\<open>math.sin\<close>, \<^verbatim>\<open>math.cos\<close>, \<^verbatim>\<open>math.sqrt\<close> and \<^verbatim>\<open>math.atan2\<close> all pass NaN on without
  raising, so the result is NaN.
\<close>

fun calculate_distance ::
  "arith \<Rightarrow> pyfloat \<Rightarrow> pyfloat \<Rightarrow> pyfloat \<Rightarrow> pyfloat \<Rightarrow> exn + pyfloat" where
  "calculate_distance ar (Num lat1) (Num lon1) (Num lat2) (Num lon2) =
     (let a = haversine_a ar lat1 lon1 lat2 lon2
      in case py_sqrt ar a of
           Inl e \<Rightarrow> Inl e
         | Inr sa \<Rightarrow>
             (case py_sqrt ar (rnd ar (1 - a)) of
                Inl e \<Rightarrow> Inl e
              | Inr sb \<Rightarrow> Inr (Num (rnd ar (6371 * 2 * fatan2 ar sa sb)))))"
| "calculate_distance ar _ _ _ _ = Inr NaN"

section \<open>upload_page\<close>

text \<open>
  What \<^verbatim>\<open>\s\<close> matches in a \<^verbatim>\<open>str\<close> pattern, among the ASCII characters: tab, line feed,
  vertical tab, form feed, carriage return, the four separators \<^verbatim>\<open>0x1C\<close> to \<^verbatim>\<open>0x1F\<close>, and
  the space. Cells are modelled as ASCII text.
\<close>

definition is_space :: "char \<Rightarrow> bool" where
  "is_space c = (c \<in> set [CHR 0x09, CHR 0x0A, CHR 0x0B, CHR 0x0C, CHR 0x0D,
                           CHR 0x1C, CHR 0x1D, CHR 0x1E, CHR 0x1F, CHR 0x20])"

text \<open>
  A match of the pattern \<^verbatim>\<open>\s*,\s*\<close> at the start of a string: the rest after the match,
  or \<open>None\<close>. Both stars are greedy, and no backtracking can help since a whitespace
  character is never a comma.
\<close>

definition match_sep :: "string \<Rightarrow> string option" where
  "match_sep s =
     (case dropWhile is_space s of
        [] \<Rightarrow> None
      | c # r \<Rightarrow> if c = CHR '','' then Some (dropWhile is_space r) else None)"

text \<open>
  \<^verbatim>\<open>re.split(pat, s, maxsplit=1)\<close>, which is what \<^verbatim>\<open>str.split(pat, n=1)\<close> runs on each cell:
  the pattern is tried at each position from the left (\<open>acc\<close> holds, reversed, the
  characters already passed); at the first match the string is cut in two, and with
  no match it is returned whole.
\<close>

fun split_from :: "string \<Rightarrow> string \<Rightarrow> string list" where
  "split_from acc [] = [rev acc]"
| "split_from acc (c # t) =
     (case match_sep (c # t) of
        Some rest \<Rightarrow> [rev acc, rest]
      | None \<Rightarrow> split_from (c # acc) t)"

definition split1 :: "string \<Rightarrow> string list" where
  "split1 s = split_from [] s"

text \<open>
  \<^verbatim>\<open>.str.split(..., expand=True)\<close> on the column: each string cell gives its parts, a
  missing cell gives one missing part; the frame returned has as many columns as the
  longest row has parts (none when there are no rows), and the shorter rows are filled
  with missing values.
\<close>

definition cell_parts :: "string option \<Rightarrow> string option list" where
  "cell_parts cell = (case cell of None \<Rightarrow> [None] | Some s \<Rightarrow> map Some (split1 s))"

definition shape1 :: "'a list list \<Rightarrow> nat" where
  "shape1 rows = fold max (map length rows) 0"

definition pad_row :: "nat \<Rightarrow> string option list \<Rightarrow> string option list" where
  "pad_row n r = r @ replicate (n - length r) None"

definition str_split_expand :: "string option list \<Rightarrow> string option list list" where
  "str_split_expand cells =
     (let rows = map cell_parts cells in map (pad_row (shape1 rows)) rows)"

definition column :: "nat \<Rightarrow> string option list list \<Rightarrow> string option list" where
  "column k rows = map (\<lambda>r. if k < length r then r ! k else None) rows"

text \<open>
  \<^verbatim>\<open>pd.to_numeric\<close> with its default \<^verbatim>\<open>errors='raise'\<close>. The conversion of one string is
  the library's and is a parameter \<open>conv\<close> (\<open>None\<close> where the string does not parse);
  a missing value becomes NaN; one string that does not parse raises \<^verbatim>\<open>ValueError\<close>
  for the whole column.
\<close>

definition to_numeric_cell :: "(string \<Rightarrow> pyfloat option) \<Rightarrow> string option \<Rightarrow> pyfloat option" where
  "to_numeric_cell conv cell = (case cell of None \<Rightarrow> Some NaN | Some s \<Rightarrow> conv s)"

fun to_numeric :: "(string \<Rightarrow> pyfloat option) \<Rightarrow> string option list \<Rightarrow> exn + pyfloat list" where
  "to_numeric conv [] = Inr []"
| "to_numeric conv (cell # cells) =
     (case to_numeric_cell conv cell of
        None \<Rightarrow> Inl ValueError
      | Some v \<Rightarrow> (case to_numeric conv cells of Inl e \<Rightarrow> Inl e | Inr vs \<Rightarrow> Inr (v # vs)))"

text \<open>
  The conversion of plain decimal literals: an optional sign, digits, and an optional
  fraction. The value is the exact decimal number the literal denotes.
\<close>

definition digit_of :: "char \<Rightarrow> nat option" where
  "digit_of c =
     (let k = (of_char c :: nat) in if 48 \<le> k \<and> k \<le> 57 then Some (k - 48) else None)"

fun digits_value :: "nat \<Rightarrow> string \<Rightarrow> nat option" where
  "digits_value acc [] = Some acc"
| "digits_value acc (c # cs) =
     (case digit_of c of None \<Rightarrow> None | Some d \<Rightarrow> digits_value (10 * acc + d) cs)"

definition unsigned_decimal :: "string \<Rightarrow> real option" where
  "unsigned_decimal s =
     (let ipart = takeWhile (\<lambda>c. c \<noteq> CHR ''.'') s;
          rest = dropWhile (\<lambda>c. c \<noteq> CHR ''.'') s;
          fpart = (case rest of [] \<Rightarrow> [] | _ # f \<Rightarrow> f)
      in if ipart = [] \<and> fpart = [] then None
         else (case (digits_value 0 ipart, digits_value 0 fpart) of
                 (Some i, Some f) \<Rightarrow> Some (real i + real f / 10 ^ length fpart)
               | _ \<Rightarrow> None))"

definition decimal_literal :: "string \<Rightarrow> pyfloat option" where
  "decimal_literal s =
     (case s of
        [] \<Rightarrow> None
      | c # cs \<Rightarrow>
          if c = CHR ''-'' then map_option (\<lambda>x. Num (- x)) (unsigned_decimal cs)
          else if c = CHR ''+'' then map_option Num (unsigned_decimal cs)
          else map_option Num (unsigned_decimal s))"

text \<open>
  The frame \<^verbatim>\<open>read_csv\<close> returns: its column labels, and of each row the index label
  and the two columns the page reads once the column labels have passed the check of
  line 93 (the name and the coordinates cell). The \<^verbatim>\<open>coordinates\<close> column either holds
  text (strings and missing cells), or has another dtype, on which the \<^verbatim>\<open>.str\<close>
  accessor raises \<^verbatim>\<open>AttributeError\<close>.
\<close>

datatype frame_body = TextRows "(row_label \<times> string \<times> string option) list" | OtherDtype

record dataframe =
  columns :: "string list"
  body :: frame_body

text \<open>
  What the page shows at the end of a run of \<open>upload_page\<close>: nothing new when no file is
  in the uploader; the error of line 94 (wrong columns, the specification's
  \<^verbatim>\<open>SchemaError\<close>); the error of line 99 (the coordinates do not split in two, its
  \<^verbatim>\<open>FormatError\<close>); the error of line 118 with the exception the \<^verbatim>\<open>try\<close> block caught;
  or the success message of line 113.
\<close>

datatype upload_report =
    NoFile
  | InvalidColumns
  | InvalidCoordinatesFormat
  | ErrorMessage exn
  | UploadedOk

text \<open>
  The row-wise \<^verbatim>\<open>apply\<close> of lines 105 to 110: each row's distance to the giveaway
  location; the first row that raises ends it.
\<close>

definition to_giveaway :: "arith \<Rightarrow> pyfloat \<Rightarrow> pyfloat \<Rightarrow> exn + pyfloat" where
  "to_giveaway ar lat lon =
     calculate_distance ar (Num (fst GIVEAWAY_LOCATION)) (Num (snd GIVEAWAY_LOCATION)) lat lon"

fun distances :: "arith \<Rightarrow> (pyfloat \<times> pyfloat) list \<Rightarrow> exn + pyfloat list" where
  "distances ar [] = Inr []"
| "distances ar ((lat, lon) # rows) =
     (case to_giveaway ar lat lon of
        Inl e \<Rightarrow> Inl e
      | Inr d \<Rightarrow> (case distances ar rows of Inl e \<Rightarrow> Inl e | Inr ds \<Rightarrow> Inr (d # ds)))"

definition make_rows ::
  "(row_label \<times> string \<times> string option) list \<Rightarrow> pyfloat list \<Rightarrow> pyfloat list \<Rightarrow> pyfloat list
     \<Rightarrow> participant list" where
  "make_rows rows lats lons ds =
     map (\<lambda>((l, n, c), lat, lon, d).
            \<lparr>label = l, name = n, coordinates = c, latitude = lat, longitude = lon,
             distance_km = d\<rparr>)
         (zip rows (zip lats (zip lons ds)))"

text \<open>
  Lines 89 to 118. The argument is \<open>None\<close> when no file is in the uploader, \<open>Some (Inl e)\<close>
  when \<^verbatim>\<open>read_csv\<close> raises, \<open>Some (Inr df)\<close> with the frame read otherwise. Everything
  from \<^verbatim>\<open>read_csv\<close> to the assignment of line 112 is inside the \<^verbatim>\<open>try\<close>, whose handler
  shows the exception; the session state is assigned on lines 112 and 114 only.
\<close>

definition upload_page ::
  "arith \<Rightarrow> (string \<Rightarrow> pyfloat option) \<Rightarrow> session \<Rightarrow> (exn + dataframe) option
     \<Rightarrow> upload_report \<times> session" where
  "upload_page ar conv s uploaded_file =
     (case uploaded_file of
        None \<Rightarrow> (NoFile, s)
      | Some (Inl e) \<Rightarrow> (ErrorMessage e, s)
      | Some (Inr df) \<Rightarrow>
          if columns df \<noteq> [''name'', ''coordinates''] then (InvalidColumns, s)
          else
            (case body df of
               OtherDtype \<Rightarrow> (ErrorMessage AttributeError, s)
             | TextRows rows \<Rightarrow>
                 (let coord_split = str_split_expand (map (\<lambda>(l, n, c). c) rows) in
                  if shape1 coord_split \<noteq> 2 then (InvalidCoordinatesFormat, s)
                  else
                    (case to_numeric conv (column 0 coord_split) of
                       Inl e \<Rightarrow> (ErrorMessage e, s)
                     | Inr lats \<Rightarrow>
                         (case to_numeric conv (column 1 coord_split) of
                            Inl e \<Rightarrow> (ErrorMessage e, s)
                          | Inr lons \<Rightarrow>
                              (case distances ar (zip lats lons) of
                                 Inl e \<Rightarrow> (ErrorMessage e, s)
                               | Inr ds \<Rightarrow>
                                   (UploadedOk,
                                    s\<lparr>participants := Some (make_rows rows lats lons ds),
                                      page := ''map''\<rparr>)))))))"

section \<open>map_page: the draw\<close>

text \<open>
  \<^verbatim>\<open>Series.idxmin\<close>: the label of the first occurrence of the minimum, NaN skipped. On an
  empty column it raises \<^verbatim>\<open>ValueError\<close>. On a column of NaN only it raises too in current
  versions of the library (older ones return NaN, on which \<^verbatim>\<open>.loc\<close> then raises); the
  model has \<^verbatim>\<open>ValueError\<close> for both. The loop finds the position: it keeps the best
  position and value so far and replaces them on a strictly smaller value only. The
  label returned is the one the index has at that position.
\<close>

fun argmin_loop :: "pyfloat list \<Rightarrow> nat \<Rightarrow> (nat \<times> real) option \<Rightarrow> (nat \<times> real) option" where
  "argmin_loop [] i best = best"
| "argmin_loop (NaN # ds) i best = argmin_loop ds (Suc i) best"
| "argmin_loop (Num x # ds) i best =
     argmin_loop ds (Suc i)
       (case best of
          None \<Rightarrow> Some (i, x)
        | Some (j, m) \<Rightarrow> if x < m then Some (i, x) else Some (j, m))"

definition argmin :: "pyfloat list \<Rightarrow> exn + nat" where
  "argmin ds = (case argmin_loop ds 0 None of None \<Rightarrow> Inl ValueError | Some (i, m) \<Rightarrow> Inr i)"

definition idxmin :: "row_label list \<Rightarrow> pyfloat list \<Rightarrow> exn + row_label" where
  "idxmin index ds =
     (case argmin ds of
        Inl e \<Rightarrow> Inl e
      | Inr i \<Rightarrow> if i < length index then Inr (index ! i) else Inl KeyError)"

text \<open>
  \<^verbatim>\<open>.loc[label]\<close> on the frame: \<^verbatim>\<open>KeyError\<close> when no row has the label, the row when one
  has it, the frame of all the rows that have it otherwise.
\<close>

definition loc :: "participant list \<Rightarrow> row_label \<Rightarrow> exn + selection" where
  "loc df l =
     (case filter (\<lambda>p. label p = l) df of
        [] \<Rightarrow> Inl KeyError
      | [p] \<Rightarrow> Inr (Row p)
      | ps \<Rightarrow> Inr (Rows ps))"

text \<open>
  What a run of \<open>map_page\<close> ends with: the map drawn, the error of line 125 (no data, the
  page returns before the button exists), the rerun of line 162 after a draw, or an
  exception that leaves the function.
\<close>

datatype page_result = Rendered | NoData | Rerun | Unhandled exn

text \<open>
  Lines 121 to 162; \<open>clicked\<close> says whether the Draw Winner button was pressed in this
  run. Nothing catches an exception here: one raised on lines 158 to 160 leaves the
  function (\<open>Unhandled\<close>) before the assignment it is part of, so the state is as it was.
\<close>

definition map_page :: "session \<Rightarrow> bool \<Rightarrow> page_result \<times> session" where
  "map_page s clicked =
     (case participants s of
        None \<Rightarrow> (NoData, s)
      | Some df \<Rightarrow>
          if clicked then
            (case idxmin (map label df) (map distance_km df) of
               Inl e \<Rightarrow> (Unhandled e, s)
             | Inr l \<Rightarrow>
                 (case loc df l of
                    Inl e \<Rightarrow> (Unhandled e, s)
                  | Inr w \<Rightarrow> (Rerun, s\<lparr>winner := Some w, page := ''winner''\<rparr>)))
          else (Rendered, s))"

section \<open>The script and the states of a session\<close>

text \<open>
  Lines 168 to 172, the guard of \<^verbatim>\<open>winner_page\<close>: without participants or without a winner
  the page goes back to the upload. The rest of the page (lines 174 to 228) displays and
  assigns nothing.
\<close>

definition winner_page_guard :: "session \<Rightarrow> session" where
  "winner_page_guard s =
     (if participants s = None \<or> winner s = None then s\<lparr>page := ''upload''\<rparr> else s)"

text \<open>
  What the user does in one run of the script: the page chosen in the sidebar, the file
  in the uploader, and whether Draw Winner was pressed.
\<close>

record interaction =
  selected :: string
  uploaded :: "(exn + dataframe) option"
  clicked :: bool

text \<open>
  One run of the script, lines 230 to 252: the sidebar assigns \<^verbatim>\<open>page\<close> (line 245), then
  the page of that name runs. The result is the session state the run leaves.
\<close>

definition script ::
  "arith \<Rightarrow> (string \<Rightarrow> pyfloat option) \<Rightarrow> session \<Rightarrow> interaction \<Rightarrow> session" where
  "script ar conv s0 act =
     (let s = s0\<lparr>page := selected act\<rparr>
      in if page s = ''upload'' then snd (upload_page ar conv s (uploaded act))
         else if page s = ''map'' then snd (map_page s (clicked act))
         else if page s = ''winner'' then winner_page_guard s
         else s)"

text \<open>The session state after a sequence of runs, from the state lines 51 to 56 set up.\<close>

definition runs ::
  "arith \<Rightarrow> (string \<Rightarrow> pyfloat option) \<Rightarrow> interaction list \<Rightarrow> session" where
  "runs ar conv acts = foldl (script ar conv) initial_session acts"

section \<open>Vocabulary of the properties\<close>

text \<open>Python's \<^verbatim>\<open><\<close> and \<^verbatim>\<open><=\<close> on floats: false as soon as one side is NaN.\<close>

fun py_lt :: "pyfloat \<Rightarrow> pyfloat \<Rightarrow> bool" where
  "py_lt (Num x) (Num y) = (x < y)"
| "py_lt _ _ = False"

fun py_le :: "pyfloat \<Rightarrow> pyfloat \<Rightarrow> bool" where
  "py_le (Num x) (Num y) = (x \<le> y)"
| "py_le _ _ = False"

text \<open>
  What \<open>argmin_loop\<close> has established when it returns position \<open>i\<close> with value \<open>m\<close>,
  having started at position \<open>k\<close> with \<open>best\<close>: no value of the list is below \<open>m\<close>, and
  either \<open>best\<close> was kept, or \<open>m\<close> sits at \<open>i\<close>, beats \<open>best\<close> strictly and is strictly
  below everything before it in the list.
\<close>

definition argmin_post ::
  "pyfloat list \<Rightarrow> nat \<Rightarrow> (nat \<times> real) option \<Rightarrow> nat \<Rightarrow> real \<Rightarrow> bool" where
  "argmin_post ds k best i m \<longleftrightarrow>
     (\<forall>y. Num y \<in> set ds \<longrightarrow> m \<le> y) \<and>
     (best = Some (i, m) \<or>
      (\<exists>n. i = k + n \<and> n < length ds \<and> ds ! n = Num m
        \<and> (\<forall>j mb. best = Some (j, mb) \<longrightarrow> m < mb)
        \<and> (\<forall>j < n. \<forall>y. ds ! j = Num y \<longrightarrow> m < y)))"

text \<open>A session with no participant record: no frame, or a frame without rows.\<close>

definition zero_records :: "session \<Rightarrow> bool" where
  "zero_records s = (case participants s of None \<Rightarrow> True | Some df \<Rightarrow> df = [])"

text \<open>Concrete frames and files used below.\<close>

definition scored :: "nat \<Rightarrow> string \<Rightarrow> real \<Rightarrow> participant" where
  "scored i n d =
     \<lparr>label = Position i, name = n, coordinates = None, latitude = NaN, longitude = NaN,
      distance_km = Num d\<rparr>"

definition draw_example :: "participant list" where
  "draw_example = [scored 0 ''P0'' 5, scored 1 ''P1'' 3, scored 2 ''P2'' 3, scored 3 ''P3'' 7]"

definition map_session :: "participant list \<Rightarrow> session" where
  "map_session df = \<lparr>page = ''map'', participants = Some df, winner = None\<rparr>"

definition loaded_session :: session where
  "loaded_session =
     \<lparr>page = ''upload'', participants = Some draw_example,
      winner = Some (Row (scored 1 ''P1'' 3))\<rparr>"

definition one_row_file :: dataframe where
  "one_row_file =
     \<lparr>columns = [''name'', ''coordinates''],
      body = TextRows [(Position 0, ''Ann'', Some ''12.34, -56.78'')]\<rparr>"

definition three_column_file :: dataframe where
  "three_column_file = \<lparr>columns = [''name'', ''lat'', ''lon''], body = OtherDtype\<rparr>"

definition short_cell_file :: dataframe where
  "short_cell_file =
     \<lparr>columns = [''name'', ''coordinates''],
      body = TextRows [(Position 0, ''A'', Some ''1.0, 2.0''), (Position 1, ''B'', Some ''3.0'')]\<rparr>"

text \<open>
  The frame \<^verbatim>\<open>read_csv\<close> makes of a file whose rows have one field more than the header
  \<^verbatim>\<open>name,coordinates\<close>, the same first field \<^verbatim>\<open>g\<close> on both:
  \<^verbatim>\<open>g,Ann,"5, 5"\<close> and \<^verbatim>\<open>g,Bob,"6, 6"\<close>. The first field is the label of the row.
\<close>

definition repeated_label_file :: dataframe where
  "repeated_label_file =
     \<lparr>columns = [''name'', ''coordinates''],
      body = TextRows [(Field ''g'', ''Ann'', Some ''5, 5''), (Field ''g'', ''Bob'', Some ''6, 6'')]\<rparr>"

text \<open>The rows an upload makes of it, given the two distances.\<close>

definition repeated_label_rows :: "pyfloat \<Rightarrow> pyfloat \<Rightarrow> participant list" where
  "repeated_label_rows d1 d2 =
     [\<lparr>label = Field ''g'', name = ''Ann'', coordinates = Some ''5, 5'',
       latitude = Num 5, longitude = Num 5, distance_km = d1\<rparr>,
      \<lparr>label = Field ''g'', name = ''Bob'', coordinates = Some ''6, 6'',
       latitude = Num 6, longitude = Num 6, distance_km = d2\<rparr>]"

text \<open>A file with the header line and no row.\<close>

definition header_only_file :: dataframe where
  "header_only_file = \<lparr>columns = [''name'', ''coordinates''], body = TextRows []\<rparr>"

section \<open>The distance formula in any arithmetic\<close>

lemma calculate_distance_raises:
  assumes "haversine_a ar lat1 lon1 lat2 lon2 < 0
           \<or> rnd ar (1 - haversine_a ar lat1 lon1 lat2 lon2) < 0"
  shows "calculate_distance ar (Num lat1) (Num lon1) (Num lat2) (Num lon2) = Inl ValueError"
  using assms by (auto simp: Let_def py_sqrt_def)

lemma calculate_distance_returns:
  assumes "sign_preserving ar"
    and "0 \<le> haversine_a ar lat1 lon1 lat2 lon2"
    and "0 \<le> rnd ar (1 - haversine_a ar lat1 lon1 lat2 lon2)"
  shows "\<exists>d. calculate_distance ar (Num lat1) (Num lon1) (Num lat2) (Num lon2) = Inr (Num d)
             \<and> 0 \<le> d"
proof -
  let ?a = "haversine_a ar lat1 lon1 lat2 lon2"
  from assms(1) have r: "\<And>x. 0 \<le> x \<Longrightarrow> 0 \<le> rnd ar x"
    and t: "\<And>y x. 0 \<le> y \<Longrightarrow> 0 \<le> x \<Longrightarrow> 0 \<le> fatan2 ar y x"
    by (simp_all add: sign_preserving_def)
  have sa: "0 \<le> rnd ar (sqrt ?a)" using assms(2) by (intro r) simp
  have sb: "0 \<le> rnd ar (sqrt (rnd ar (1 - ?a)))" using assms(3) by (intro r) simp
  have "0 \<le> fatan2 ar (rnd ar (sqrt ?a)) (rnd ar (sqrt (rnd ar (1 - ?a))))"
    using sa sb by (rule t)
  then have "0 \<le> rnd ar (6371 * 2 * fatan2 ar (rnd ar (sqrt ?a)) (rnd ar (sqrt (rnd ar (1 - ?a)))))"
    by (intro r) simp
  then show ?thesis using assms(2,3) by (simp add: Let_def py_sqrt_def)
qed

text \<open>
  Coincident points: the differences are exactly zero, and an arithmetic that is exact
  at 0 and 1 returns zero.
\<close>

lemma haversine_a_same:
  assumes "rnd ar 0 = 0" and "fsin ar 0 = 0"
  shows "haversine_a ar lat lon lat lon = 0"
  using assms by (simp add: haversine_a_def Let_def)

lemma calculate_distance_same:
  assumes "rnd ar 0 = 0" and "rnd ar 1 = 1" and "fsin ar 0 = 0" and "fatan2 ar 0 1 = 0"
  shows "calculate_distance ar (Num lat) (Num lon) (Num lat) (Num lon) = Inr (Num 0)"
  using assms by (simp add: haversine_a_same Let_def py_sqrt_def)

section \<open>The distance formula in exact arithmetic\<close>

text \<open>
  Without rounding the sum \<open>a\<close> of the formula lies between 0 and 1, so neither square
  root is taken of a negative number and the function returns.
\<close>

lemma sin_half_squared: "(sin (x / 2))\<^sup>2 = (1 - cos x) / (2::real)"
  using cos_double_sin [of "x / 2"] by simp

lemma haversine_convex:
  fixes p1 p2 s :: real
  defines "u \<equiv> (sin ((p2 - p1) / 2))\<^sup>2"
  shows "u + cos p1 * cos p2 * s = (1 - s) * u + s * ((1 + cos (p1 + p2)) / 2)"
proof -
  have 1: "u = (1 - cos (p2 - p1)) / 2" unfolding u_def by (rule sin_half_squared)
  have "cos (p1 - p2) = cos (p2 - p1)" using cos_minus [of "p2 - p1"] by simp
  then have 2: "cos p1 * cos p2 = (cos (p2 - p1) + cos (p1 + p2)) / 2"
    using cos_times_cos [of p1 p2] by (simp only:)
  show ?thesis unfolding 1 2 by (simp add: field_simps)
qed

lemma convex_unit:
  fixes s u v :: real
  assumes "0 \<le> s" "s \<le> 1" "0 \<le> u" "u \<le> 1" "0 \<le> v" "v \<le> 1"
  shows "0 \<le> (1 - s) * u + s * v" and "(1 - s) * u + s * v \<le> 1"
proof -
  show "0 \<le> (1 - s) * u + s * v" using assms by simp
  have "(1 - s) * u \<le> (1 - s) * 1" using assms by (intro mult_left_mono) simp_all
  moreover have "s * v \<le> s * 1" using assms by (intro mult_left_mono) simp_all
  ultimately show "(1 - s) * u + s * v \<le> 1" by simp
qed

lemma haversine_a_bounds:
  fixes p1 p2 l :: real
  shows "0 \<le> (sin ((p2 - p1) / 2))\<^sup>2 + cos p1 * cos p2 * (sin l)\<^sup>2"
    and "(sin ((p2 - p1) / 2))\<^sup>2 + cos p1 * cos p2 * (sin l)\<^sup>2 \<le> 1"
proof -
  let ?s = "(sin l)\<^sup>2" and ?u = "(sin ((p2 - p1) / 2))\<^sup>2" and ?v = "(1 + cos (p1 + p2)) / 2"
  have s: "0 \<le> ?s" "?s \<le> 1" by (simp_all add: abs_square_le_1)
  have u: "0 \<le> ?u" "?u \<le> 1" by (simp_all add: abs_square_le_1)
  have "0 \<le> 1 + cos (p1 + p2)" using cos_ge_minus_one [of "p1 + p2"] by linarith
  then have "0 \<le> ?v" by simp
  moreover have "?v \<le> 1" by simp
  ultimately have v: "0 \<le> ?v" "?v \<le> 1" .
  have eq: "?u + cos p1 * cos p2 * ?s = (1 - ?s) * ?u + ?s * ?v" by (rule haversine_convex)
  show "0 \<le> ?u + cos p1 * cos p2 * ?s" unfolding eq by (rule convex_unit(1) [OF s u v])
  show "?u + cos p1 * cos p2 * ?s \<le> 1" unfolding eq by (rule convex_unit(2) [OF s u v])
qed

lemma atan2_nonneg: "0 \<le> y \<Longrightarrow> 0 \<le> x \<Longrightarrow> 0 \<le> atan2 y x"
  by (auto simp: atan2_def zero_le_arctan_iff)

lemma haversine_a_exact:
  "haversine_a exact_arith lat1 lon1 lat2 lon2 =
     (sin ((lat2 * deg_to_rad - lat1 * deg_to_rad) / 2))\<^sup>2
     + cos (lat1 * deg_to_rad) * cos (lat2 * deg_to_rad)
       * (sin ((lon2 * deg_to_rad - lon1 * deg_to_rad) / 2))\<^sup>2"
  by (simp add: haversine_a_def exact_arith_def radians_def Let_def power2_eq_square)

lemma haversine_a_exact_bounds:
  "0 \<le> haversine_a exact_arith lat1 lon1 lat2 lon2"
  "haversine_a exact_arith lat1 lon1 lat2 lon2 \<le> 1"
  unfolding haversine_a_exact by (rule haversine_a_bounds)+

lemma sign_preserving_exact: "sign_preserving exact_arith"
  by (simp add: sign_preserving_def exact_arith_def atan2_nonneg)

lemma calculate_distance_exact_Num:
  "\<exists>d. calculate_distance exact_arith (Num lat1) (Num lon1) (Num lat2) (Num lon2) = Inr (Num d)
       \<and> 0 \<le> d"
proof (rule calculate_distance_returns [OF sign_preserving_exact])
  show "0 \<le> haversine_a exact_arith lat1 lon1 lat2 lon2" by (rule haversine_a_exact_bounds)
  have "rnd exact_arith (1 - haversine_a exact_arith lat1 lon1 lat2 lon2)
        = 1 - haversine_a exact_arith lat1 lon1 lat2 lon2"
    by (simp add: exact_arith_def)
  then show "0 \<le> rnd exact_arith (1 - haversine_a exact_arith lat1 lon1 lat2 lon2)"
    using haversine_a_exact_bounds(2) [of lat1 lon1 lat2 lon2] by simp
qed

lemma calculate_distance_exact_total:
  "\<exists>d. calculate_distance exact_arith lat1 lon1 lat2 lon2 = Inr d"
proof (cases "\<exists>a b c d. lat1 = Num a \<and> lon1 = Num b \<and> lat2 = Num c \<and> lon2 = Num d")
  case True
  then obtain a b c d where "lat1 = Num a" "lon1 = Num b" "lat2 = Num c" "lon2 = Num d"
    by blast
  then show ?thesis using calculate_distance_exact_Num [of a b c d] by blast
next
  case False
  then have "calculate_distance exact_arith lat1 lon1 lat2 lon2 = Inr NaN"
    by (cases lat1; cases lon1; cases lat2; cases lon2) simp_all
  then show ?thesis by blast
qed

lemma to_giveaway_exact_Num: "\<exists>d. to_giveaway exact_arith (Num lat) (Num lon) = Inr (Num d) \<and> 0 \<le> d"
  unfolding to_giveaway_def by (rule calculate_distance_exact_Num)

lemma to_giveaway_NaN: "to_giveaway ar lat NaN = Inr NaN" "to_giveaway ar NaN lon = Inr NaN"
  by (simp_all add: to_giveaway_def)

lemma distances_exact_total:
  "\<exists>ds. distances exact_arith rows = Inr ds \<and> length ds = length rows"
proof (induction rows)
  case Nil
  then show ?case by simp
next
  case (Cons r rows)
  obtain lat lon where r: "r = (lat, lon)" by (cases r)
  obtain d where "to_giveaway exact_arith lat lon = Inr d"
    unfolding to_giveaway_def using calculate_distance_exact_total by blast
  with Cons r show ?case by auto
qed

section \<open>Binary64 rounding\<close>

lemma rne_near:
  assumes "\<bar>x - of_int m\<bar> < 1 / 2"
  shows "rne x = m"
proof (cases "of_int m \<le> x")
  case True
  with assms have "\<lfloor>x\<rfloor> = m" by (intro floor_unique) (auto simp: abs_less_iff)
  with assms True show ?thesis by (simp add: rne_def Let_def abs_less_iff)
next
  case False
  with assms have "\<lfloor>x\<rfloor> = m - 1" by (intro floor_unique) (auto simp: abs_less_iff)
  with assms False show ?thesis by (auto simp: rne_def Let_def abs_less_iff)
qed

lemma rne_nonneg: "0 \<le> x \<Longrightarrow> 0 \<le> rne x"
  by (auto simp: rne_def Let_def)

lemma binade_eq:
  assumes "2 powr of_int e \<le> \<bar>x\<bar>" and "\<bar>x\<bar> < 2 powr (of_int e + 1)"
  shows "binade x = e"
proof -
  have "0 < \<bar>x\<bar>" using assms(1) powr_gt_zero [of 2 "of_int e"] by linarith
  then show ?thesis
    unfolding binade_def using assms floor_log_eq_powr_iff [of "\<bar>x\<bar>" 2 e] by simp
qed

lemma round64_binade:
  assumes "2 powr of_int e \<le> \<bar>x\<bar>" and "\<bar>x\<bar> < 2 powr (of_int e + 1)"
    and "\<bar>x / 2 powr (of_int e - 52) - of_int m\<bar> < 1 / 2"
  shows "round64 x = of_int m * 2 powr (of_int e - 52)"
proof -
  have "0 < \<bar>x\<bar>" using assms(1) powr_gt_zero [of 2 "of_int e"] by linarith
  then have "x \<noteq> 0" by simp
  moreover have "binade x = e" using assms(1,2) by (rule binade_eq)
  moreover have "rne (x / 2 powr (of_int e - 52)) = m" using assms(3) by (rule rne_near)
  ultimately show ?thesis by (simp add: round64_def)
qed

lemma round64_below:
  fixes k :: nat
  assumes "1 / 2 ^ k \<le> \<bar>x\<bar>" and "\<bar>x\<bar> < 2 / 2 ^ k" and "\<bar>x * 2 ^ (52 + k) - of_int m\<bar> < 1 / 2"
  shows "round64 x = of_int m / 2 ^ (52 + k)"
proof -
  have p: "(2::real) powr (of_int (- int k)) = 1 / 2 ^ k"
    by (simp add: powr_minus powr_realpow divide_inverse)
  have "(2::real) powr (of_int (- int k) + 1) = 2 powr (of_int (- int k)) * 2 powr 1"
    by (rule powr_add)
  then have q: "(2::real) powr (of_int (- int k) + 1) = 2 / 2 ^ k"
    by (simp only: p) simp
  have "of_int (- int k) - (52::real) = - real (52 + k)" by simp
  then have r: "(2::real) powr (of_int (- int k) - 52) = 1 / 2 ^ (52 + k)"
    by (simp only: powr_minus powr_realpow zero_less_numeral divide_inverse mult_1)
  have "round64 x = of_int m * 2 powr (of_int (- int k) - 52)"
    using assms by (intro round64_binade) (simp_all only: p q r, simp_all)
  then show ?thesis by (simp only: r) simp
qed

lemma round64_above:
  fixes k :: nat
  assumes "k \<le> 52" and "2 ^ k \<le> \<bar>x\<bar>" and "\<bar>x\<bar> < 2 * 2 ^ k"
    and "\<bar>x * 2 ^ (52 - k) - of_int m\<bar> < 1 / 2"
  shows "round64 x = of_int m / 2 ^ (52 - k)"
proof -
  have p: "(2::real) powr (of_int (int k)) = 2 ^ k"
    by (simp add: powr_realpow)
  have q: "(2::real) powr (of_int (int k) + 1) = 2 * 2 ^ k"
    by (simp add: powr_add powr_realpow)
  have "of_int (int k) - (52::real) = - real (52 - k)" using assms(1) by simp
  then have r: "(2::real) powr (of_int (int k) - 52) = 1 / 2 ^ (52 - k)"
    by (simp only: powr_minus powr_realpow zero_less_numeral divide_inverse mult_1)
  have "round64 x = of_int m * 2 powr (of_int (int k) - 52)"
    using assms by (intro round64_binade) (simp_all only: p q r, simp_all)
  then show ?thesis by (simp only: r) simp
qed

lemma round64_0: "round64 0 = 0"
  by (simp add: round64_def)

lemma round64_1: "round64 1 = 1"
  using round64_above [of 0 1 "2 ^ 52"] by simp

lemma round64_nonneg: "0 \<le> x \<Longrightarrow> 0 \<le> round64 x"
  by (simp add: round64_def rne_nonneg)

lemma sign_preserving_binary64: "sign_preserving binary64"
  by (simp add: sign_preserving_def binary64_def round64_nonneg atan2_nonneg)

lemma binary64_exact_at_zero:
  "rnd binary64 0 = 0" "rnd binary64 1 = 1" "fsin binary64 0 = 0" "fatan2 binary64 0 1 = 0"
  by (simp_all add: binary64_def round64_0 round64_1 libm_sin_def atan2_def)

section \<open>Sine and cosine at the arguments of the example\<close>

text \<open>
  Taylor's formula with the remainder bounded: the partial sum of the series is within
  \<open>\<bar>x\<bar> ^ n / n!\<close> of the value.
\<close>

lemma sin_taylor:
  fixes x :: real
  shows "\<bar>sin x - (\<Sum>m<n. sin_coeff m * x ^ m)\<bar> \<le> \<bar>x\<bar> ^ n / fact n"
proof -
  from Maclaurin_sin_expansion2 [of x n]
  obtain t where "sin x = (\<Sum>m<n. sin_coeff m * x ^ m)
      + sin (t + 1 / 2 * real n * pi) / fact n * x ^ n"
    by blast
  then have "\<bar>sin x - (\<Sum>m<n. sin_coeff m * x ^ m)\<bar>
      = \<bar>sin (t + 1 / 2 * real n * pi)\<bar> * \<bar>x\<bar> ^ n / fact n"
    by (simp add: abs_mult power_abs)
  also have "\<dots> \<le> 1 * \<bar>x\<bar> ^ n / fact n"
    by (intro divide_right_mono mult_right_mono) simp_all
  finally show ?thesis by simp
qed

lemma cos_taylor:
  fixes x :: real
  shows "\<bar>cos x - (\<Sum>m<n. cos_coeff m * x ^ m)\<bar> \<le> \<bar>x\<bar> ^ n / fact n"
proof -
  from Maclaurin_cos_expansion [of x n]
  obtain t where "cos x = (\<Sum>m<n. cos_coeff m * x ^ m)
      + cos (t + 1 / 2 * real n * pi) / fact n * x ^ n"
    by blast
  then have "\<bar>cos x - (\<Sum>m<n. cos_coeff m * x ^ m)\<bar>
      = \<bar>cos (t + 1 / 2 * real n * pi)\<bar> * \<bar>x\<bar> ^ n / fact n"
    by (simp add: abs_mult power_abs)
  also have "\<dots> \<le> 1 * \<bar>x\<bar> ^ n / fact n"
    by (intro divide_right_mono mult_right_mono) simp_all
  finally show ?thesis by simp
qed

lemma sin_poly12:
  fixes x :: real
  shows "(\<Sum>m<12. sin_coeff m * x ^ m)
       = x - x ^ 3 / 6 + x ^ 5 / 120 - x ^ 7 / 5040 + x ^ 9 / 362880 - x ^ 11 / 39916800"
  by (simp add: sin_coeff_def lessThan_nat_numeral sum.lessThan_Suc fact_numeral)

lemma cos_poly12:
  fixes x :: real
  shows "(\<Sum>m<12. cos_coeff m * x ^ m)
       = 1 - x ^ 2 / 2 + x ^ 4 / 24 - x ^ 6 / 720 + x ^ 8 / 40320 - x ^ 10 / 3628800"
  by (simp add: cos_coeff_def lessThan_nat_numeral sum.lessThan_Suc fact_numeral)

lemma cos_poly18:
  fixes x :: real
  shows "(\<Sum>m<18. cos_coeff m * x ^ m)
       = 1 - x ^ 2 / 2 + x ^ 4 / 24 - x ^ 6 / 720 + x ^ 8 / 40320 - x ^ 10 / 3628800 + x ^ 12 /
         479001600 - x ^ 14 / 87178291200 + x ^ 16 / 20922789888000"
  by (simp add: cos_coeff_def lessThan_nat_numeral sum.lessThan_Suc fact_numeral)

text \<open>
  From an approximation \<open>p\<close> of \<open>s\<close> with error at most \<open>r\<close> to the distance of \<open>s\<close>,
  scaled by \<open>c\<close>, from \<open>m\<close>.
\<close>

lemma near_scaled:
  fixes s p r c m :: real
  assumes "\<bar>s - p\<bar> \<le> r" and "\<bar>p * c - m\<bar> + r * c < 1 / 2" and "0 < c"
  shows "\<bar>s * c - m\<bar> < 1 / 2"
proof -
  have "\<bar>s * c - m\<bar> = \<bar>(s - p) * c + (p * c - m)\<bar>" by (simp add: algebra_simps)
  also have "\<dots> \<le> \<bar>(s - p) * c\<bar> + \<bar>p * c - m\<bar>" by (rule abs_triangle_ineq)
  also have "\<bar>(s - p) * c\<bar> = \<bar>s - p\<bar> * c" using assms(3) by (simp add: abs_mult)
  also have "\<bar>s - p\<bar> * c \<le> r * c" using assms(1,3) by (intro mult_right_mono) simp_all
  finally show ?thesis using assms(2) by simp
qed

text \<open>
  The sine of \<^verbatim>\<open>0.13962634015954636\<close> (8 degrees in radians, as a float) is within half a
  unit in the last place of \<^verbatim>\<open>0x1.1d06c968d9e19p-3\<close>, and its cosine within half a unit of
  \<^verbatim>\<open>0x1.fb046a930947ap-1\<close>.
\<close>

lemma sin_8_degrees:
  "\<bar>sin (5030569068109113 / 2 ^ 55 :: real) * 2 ^ 55 - 5014239404989977\<bar> < 1 / 2"
proof -
  let ?x = "5030569068109113 / 2 ^ 55 :: real"
  let ?p = "?x - ?x ^ 3 / 6 + ?x ^ 5 / 120 - ?x ^ 7 / 5040 + ?x ^ 9 / 362880 - ?x ^ 11 / 39916800"
  have "\<bar>sin ?x - ?p\<bar> \<le> \<bar>?x\<bar> ^ 12 / fact 12"
    using sin_taylor [of ?x 12] by (simp only: sin_poly12)
  then have 1: "\<bar>sin ?x - ?p\<bar> \<le> ?x ^ 12 / 479001600"
    by (simp add: fact_numeral)
  have 2: "\<bar>?p * 2 ^ 55 - 5014239404989977\<bar> + ?x ^ 12 / 479001600 * 2 ^ 55 < 1 / 2"
    by (simp add: power_divide)
  show ?thesis by (rule near_scaled [OF 1 2]) simp
qed

lemma cos_8_degrees:
  "\<bar>cos (5030569068109113 / 2 ^ 55 :: real) * 2 ^ 53 - 8919541810762874\<bar> < 1 / 2"
proof -
  let ?x = "5030569068109113 / 2 ^ 55 :: real"
  let ?p = "1 - ?x ^ 2 / 2 + ?x ^ 4 / 24 - ?x ^ 6 / 720 + ?x ^ 8 / 40320 - ?x ^ 10 / 3628800"
  have "\<bar>cos ?x - ?p\<bar> \<le> \<bar>?x\<bar> ^ 12 / fact 12"
    using cos_taylor [of ?x 12] by (simp only: cos_poly12)
  then have 1: "\<bar>cos ?x - ?p\<bar> \<le> ?x ^ 12 / 479001600"
    by (simp add: fact_numeral)
  have 2: "\<bar>?p * 2 ^ 53 - 8919541810762874\<bar> + ?x ^ 12 / 479001600 * 2 ^ 53 < 1 / 2"
    by (simp add: power_divide)
  show ?thesis by (rule near_scaled [OF 1 2]) simp
qed

text \<open>
  The cosine of \<^verbatim>\<open>1.5707963267948966\<close> (the float nearest to \<open>pi / 2\<close>) is below \<open>2 ^ -28\<close>
  in absolute value, so the sine is above \<open>1 - 2 ^ -54\<close>.
\<close>

lemma cos_half_pi_float: "\<bar>cos (884279719003555 / 2 ^ 49 :: real)\<bar> < 1 / 2 ^ 28"
proof -
  let ?x = "884279719003555 / 2 ^ 49 :: real"
  let ?p = "1 - ?x ^ 2 / 2 + ?x ^ 4 / 24 - ?x ^ 6 / 720 + ?x ^ 8 / 40320 - ?x ^ 10 / 3628800 + ?x ^ 12 /
            479001600 - ?x ^ 14 / 87178291200 + ?x ^ 16 / 20922789888000"
  have "\<bar>cos ?x - ?p\<bar> \<le> \<bar>?x\<bar> ^ 18 / fact 18"
    using cos_taylor [of ?x 18] by (simp only: cos_poly18)
  then have 1: "\<bar>cos ?x - ?p\<bar> \<le> ?x ^ 18 / 6402373705728000"
    by (simp add: fact_numeral)
  have 2: "\<bar>?p\<bar> + ?x ^ 18 / 6402373705728000 < 1 / 2 ^ 28"
    by (simp add: power_divide)
  have "\<bar>cos ?x\<bar> \<le> \<bar>cos ?x - ?p\<bar> + \<bar>?p\<bar>"
    using abs_triangle_ineq [of "cos ?x - ?p" ?p] by simp
  with 1 2 show ?thesis by linarith
qed

lemma sin_near_one:
  fixes x :: real
  assumes pos: "0 < sin x" and small: "\<bar>cos x\<bar> < 1 / 2 ^ 28"
  shows "1 - 1 / 2 ^ 54 < sin x"
proof -
  have "(cos x)\<^sup>2 = \<bar>cos x\<bar> * \<bar>cos x\<bar>" by (simp add: power2_eq_square)
  also have "\<dots> \<le> (1 / 2 ^ 28) * (1 / 2 ^ 28)"
    using small by (intro mult_mono) simp_all
  finally have c: "(cos x)\<^sup>2 \<le> 1 / 2 ^ 56" by simp
  have "(sin x)\<^sup>2 = 1 - (cos x)\<^sup>2" by (rule sin_squared_eq)
  with c have s2: "1 - 1 / 2 ^ 56 \<le> (sin x)\<^sup>2" by simp
  have "(sin x)\<^sup>2 = sin x * sin x" by (simp add: power2_eq_square)
  also have "\<dots> \<le> sin x * 1" using pos by (intro mult_left_mono) simp_all
  finally have "(sin x)\<^sup>2 \<le> sin x" by simp
  with s2 have "1 - 1 / 2 ^ 56 \<le> sin x" by linarith
  moreover have "(1::real) - 1 / 2 ^ 54 < 1 - 1 / 2 ^ 56" by simp
  ultimately show ?thesis by linarith
qed

lemma sin_half_pi_float:
  "1 - 1 / 2 ^ 54 < sin (884279719003555 / 2 ^ 49 :: real)"
proof (rule sin_near_one)
  let ?x = "884279719003555 / 2 ^ 49 :: real"
  have "0 < ?x" by simp
  moreover have "?x < 2" by simp
  then have "?x < pi" using pi_ge_two by linarith
  ultimately show "0 < sin ?x" by (rule sin_gt_zero)
  show "\<bar>cos ?x\<bar> < 1 / 2 ^ 28" by (rule cos_half_pi_float)
qed

text \<open>
  Rounding a number that is within half a unit of a 53-bit integer \<open>m\<close>, once scaled,
  gives \<open>m\<close> scaled back; and rounding a number between \<open>1 - 2 ^ -54\<close> and 1 gives 1.
\<close>

lemma round64_near:
  fixes k :: nat and m :: int and s :: real
  assumes near: "\<bar>s * 2 ^ (52 + k) - of_int m\<bar> < 1 / 2"
    and m: "2 ^ 52 < \<bar>m\<bar>" "\<bar>m\<bar> < 2 ^ 53"
  shows "round64 s = of_int m / 2 ^ (52 + k)"
proof -
  let ?c = "2 ^ (52 + k) :: real"
  have c: "?c = 2 ^ 52 * 2 ^ k" by (simp add: power_add)
  have "\<bar>\<bar>s * ?c\<bar> - \<bar>real_of_int m\<bar>\<bar> \<le> \<bar>s * ?c - of_int m\<bar>" by (rule abs_triangle_ineq3)
  with near have d: "\<bar>\<bar>s * ?c\<bar> - \<bar>real_of_int m\<bar>\<bar> < 1 / 2" by linarith
  from m(1) have "2 ^ 52 + 1 \<le> \<bar>m\<bar>" by simp
  then have "real_of_int (2 ^ 52 + 1) \<le> real_of_int \<bar>m\<bar>" by (rule of_int_le_iff [THEN iffD2])
  then have m1: "2 ^ 52 + 1 \<le> \<bar>real_of_int m\<bar>" by simp
  from m(2) have "\<bar>m\<bar> \<le> 2 ^ 53 - 1" by simp
  then have "real_of_int \<bar>m\<bar> \<le> real_of_int (2 ^ 53 - 1)" by (rule of_int_le_iff [THEN iffD2])
  then have m2: "\<bar>real_of_int m\<bar> \<le> 2 ^ 53 - 1" by simp
  have sc: "\<bar>s * ?c\<bar> = \<bar>s\<bar> * 2 ^ 52 * 2 ^ k" by (simp add: abs_mult c)
  from d m1 have "2 ^ 52 < \<bar>s * ?c\<bar>" by linarith
  then have "2 ^ 52 < (\<bar>s\<bar> * 2 ^ k) * 2 ^ 52" by (simp add: sc mult_ac)
  then have "1 < \<bar>s\<bar> * 2 ^ k" by simp
  then have lo: "1 / 2 ^ k \<le> \<bar>s\<bar>" by (simp add: field_simps)
  from d m2 have "\<bar>s * ?c\<bar> < 2 ^ 53" by linarith
  then have "(\<bar>s\<bar> * 2 ^ k) * 2 ^ 52 < 2 * 2 ^ 52" by (simp add: sc mult_ac)
  then have "\<bar>s\<bar> * 2 ^ k < 2" by simp
  then have hi: "\<bar>s\<bar> < 2 / 2 ^ k" by (simp add: field_simps)
  from lo hi near show ?thesis by (rule round64_below)
qed

lemma round64_up_to_one:
  fixes s :: real
  assumes "1 - 1 / 2 ^ 54 < s" and "s \<le> 1"
  shows "round64 s = 1"
proof (cases "s = 1")
  case True
  then show ?thesis by (simp add: round64_1)
next
  case False
  with assms have lt: "s < 1" by simp
  have "(1::real) / 2 ^ 54 < 1 / 2" by simp
  with assms(1) have half: "1 / 2 < s" by linarith
  have lo: "1 / 2 ^ 1 \<le> \<bar>s\<bar>" using half by simp
  have hi: "\<bar>s\<bar> < 2 / 2 ^ 1" using lt half by simp
  have "s * 2 ^ 53 - 2 ^ 53 = (s - 1) * 2 ^ 53" by (simp add: algebra_simps)
  moreover have "- (1 / 2 ^ 54) * 2 ^ 53 < (s - 1) * 2 ^ 53"
    using assms(1) by (intro mult_strict_right_mono) simp_all
  moreover have "(s - 1) * 2 ^ 53 < 0" using lt by (simp add: mult_less_0_iff)
  ultimately have "- (1 / 2) < s * 2 ^ 53 - 2 ^ 53" and "s * 2 ^ 53 - 2 ^ 53 < 0" by simp_all
  then have near: "\<bar>s * 2 ^ (52 + 1) - of_int (2 ^ 53)\<bar> < 1 / 2" by (simp add: abs_less_iff)
  have "round64 s = of_int (2 ^ 53) / 2 ^ (52 + 1)" using lo hi near by (rule round64_below)
  then show ?thesis by simp
qed

text \<open>The floats the sine and the cosine return at these arguments.\<close>

lemma libm_sin_8_degrees:
  "libm_sin (- (5030569068109113 / 2 ^ 55)) = - (5014239404989977 / 2 ^ 55)"
proof -
  let ?s = "sin (5030569068109113 / 2 ^ 55 :: real)"
  have "(- ?s) * 2 ^ (52 + 3) - of_int (- 5014239404989977)
      = - (?s * 2 ^ 55 - 5014239404989977)" by simp
  then have "\<bar>(- ?s) * 2 ^ (52 + 3) - of_int (- 5014239404989977)\<bar>
      = \<bar>?s * 2 ^ 55 - 5014239404989977\<bar>"
    by (simp only: abs_minus)
  with sin_8_degrees
  have near: "\<bar>(- ?s) * 2 ^ (52 + 3) - of_int (- 5014239404989977)\<bar> < 1 / 2"
    by (simp only:)
  have "round64 (- ?s) = of_int (- 5014239404989977) / 2 ^ (52 + 3)"
    using near by (rule round64_near) simp_all
  then show ?thesis by (simp add: libm_sin_def)
qed

lemma libm_cos_8_degrees:
  "libm_cos (5030569068109113 / 2 ^ 55) = 4459770905381437 / 2 ^ 52"
proof -
  let ?c = "cos (5030569068109113 / 2 ^ 55 :: real)"
  have "?c * 2 ^ (52 + 1) - of_int 8919541810762874 = ?c * 2 ^ 53 - 8919541810762874"
    by simp
  with cos_8_degrees
  have near: "\<bar>?c * 2 ^ (52 + 1) - of_int 8919541810762874\<bar> < 1 / 2"
    by (simp only:)
  have "round64 ?c = of_int 8919541810762874 / 2 ^ (52 + 1)"
    using near by (rule round64_near) simp_all
  then show ?thesis by (simp add: libm_cos_def)
qed

lemma libm_cos_minus_8_degrees:
  "libm_cos (- (5030569068109113 / 2 ^ 55)) = 4459770905381437 / 2 ^ 52"
  using libm_cos_8_degrees by (simp add: libm_cos_def)

lemma libm_sin_half_pi_float: "libm_sin (884279719003555 / 2 ^ 49) = 1"
  unfolding libm_sin_def
  by (rule round64_up_to_one) (rule sin_half_pi_float, rule sin_le_one)

section \<open>An input where rounding takes a above 1\<close>

text \<open>
  The points \<open>(8, 0)\<close> and \<open>(-8, 180)\<close> are antipodal. Each lemma below is one rounded
  operation of lines 64 to 71 on this input, in binary64; the sines and cosines are those
  of the section before.
\<close>

lemma binary64_sel:
  "rnd binary64 = round64" "fsin binary64 = libm_sin" "fcos binary64 = libm_cos"
  by (simp_all add: binary64_def)

lemma overshoot_lon1: "round64 (0 * (5030569068109113 / 2 ^ 58)) = 0"
  by (simp add: round64_0)

lemma overshoot_lat1: "round64 (8 * (5030569068109113 / 2 ^ 58)) = 5030569068109113 / 2 ^ 55"
  using round64_below [of 3 "8 * (5030569068109113 / 2 ^ 58)" "5030569068109113"] by simp

lemma overshoot_lat2: "round64 (- 8 * (5030569068109113 / 2 ^ 58)) = - (5030569068109113 / 2 ^ 55)"
  using round64_below [of 3 "- 8 * (5030569068109113 / 2 ^ 58)" "- 5030569068109113"] by simp

lemma overshoot_lon2: "round64 (180 * (5030569068109113 / 2 ^ 58)) = 884279719003555 / 2 ^ 48"
  using round64_above [of 1 "180 * (5030569068109113 / 2 ^ 58)" "7074237752028440"] by simp

lemma overshoot_dlon: "round64 (884279719003555 / 2 ^ 48 - 0) = 884279719003555 / 2 ^ 48"
  using round64_above [of 1 "884279719003555 / 2 ^ 48 - 0" "7074237752028440"] by simp

lemma overshoot_dlat: "round64 (- (5030569068109113 / 2 ^ 55) - 5030569068109113 / 2 ^ 55) = - (5030569068109113 / 2 ^ 54)"
  using round64_below [of 2 "- (5030569068109113 / 2 ^ 55) - 5030569068109113 / 2 ^ 55" "- 5030569068109113"] by simp

lemma overshoot_half_dlat: "round64 (- (5030569068109113 / 2 ^ 54) / 2) = - (5030569068109113 / 2 ^ 55)"
  using round64_below [of 3 "- (5030569068109113 / 2 ^ 54) / 2" "- 5030569068109113"] by simp

lemma overshoot_half_dlon: "round64 (884279719003555 / 2 ^ 48 / 2) = 884279719003555 / 2 ^ 49"
  using round64_above [of 0 "884279719003555 / 2 ^ 48 / 2" "7074237752028440"] by simp

lemma overshoot_sin_squared: "round64 (- (5014239404989977 / 2 ^ 55) * - (5014239404989977 / 2 ^ 55)) = 1395694493897217 / 2 ^ 56"
  using round64_below [of 6 "- (5014239404989977 / 2 ^ 55) * - (5014239404989977 / 2 ^ 55)" "5582777975588868"] by simp

lemma overshoot_cos_product: "round64 (4459770905381437 / 2 ^ 52 * (4459770905381437 / 2 ^ 52)) = 8832737443003841 / 2 ^ 53"
  using round64_below [of 1 "4459770905381437 / 2 ^ 52 * (4459770905381437 / 2 ^ 52)" "8832737443003841"] by simp

lemma overshoot_one: "round64 (1 * 1) = 1"
  using round64_above [of 0 "1 * 1" "4503599627370496"] by simp

lemma overshoot_term: "round64 (8832737443003841 / 2 ^ 53 * 1) = 8832737443003841 / 2 ^ 53"
  using round64_below [of 1 "8832737443003841 / 2 ^ 53 * 1" "8832737443003841"] by simp

lemma overshoot_a: "round64 (1395694493897217 / 2 ^ 56 + 8832737443003841 / 2 ^ 53) = 4503599627370497 / 2 ^ 52"
  using round64_above [of 0 "1395694493897217 / 2 ^ 56 + 8832737443003841 / 2 ^ 53" "4503599627370497"] by simp

lemma overshoot_one_minus_a: "round64 (1 - 4503599627370497 / 2 ^ 52) = - (1 / 2 ^ 52)"
  using round64_below [of 52 "1 - 4503599627370497 / 2 ^ 52" "- 4503599627370496"] by simp

lemma overshoot_haversine_a: "haversine_a binary64 8 0 (- 8) 180 = 4503599627370497 / 2 ^ 52"
  by (simp only: haversine_a_def radians_def deg_to_rad_def Let_def binary64_sel
      overshoot_lat1 overshoot_lon1 overshoot_lat2 overshoot_lon2 overshoot_dlon overshoot_dlat
      overshoot_half_dlat overshoot_half_dlon libm_sin_8_degrees libm_sin_half_pi_float
      overshoot_sin_squared libm_cos_8_degrees libm_cos_minus_8_degrees overshoot_cos_product
      overshoot_one overshoot_term overshoot_a)

lemma overshoot_rnd_one_minus_a:
  "rnd binary64 (1 - haversine_a binary64 8 0 (- 8) 180) = - (1 / 2 ^ 52)"
  by (simp only: overshoot_haversine_a binary64_sel overshoot_one_minus_a)

lemma overshoot_raises:
  "calculate_distance binary64 (Num 8) (Num 0) (Num (- 8)) (Num 180) = Inl ValueError"
proof (rule calculate_distance_raises)
  have "rnd binary64 (1 - haversine_a binary64 8 0 (- 8) 180) < 0"
    by (simp only: overshoot_rnd_one_minus_a) simp
  then show "haversine_a binary64 8 0 (- 8) 180 < 0
      \<or> rnd binary64 (1 - haversine_a binary64 8 0 (- 8) 180) < 0" ..
qed

section \<open>The upload\<close>

lemma to_numeric_length: "to_numeric conv cells = Inr vs \<Longrightarrow> length vs = length cells"
  by (induction cells arbitrary: vs) (auto split: option.splits sum.splits)

lemma distances_length: "distances ar rows = Inr ds \<Longrightarrow> length ds = length rows"
  by (induction rows arbitrary: ds rule: distances.induct) (auto split: sum.splits)

lemma upload_page_winner: "winner (snd (upload_page ar conv s up)) = winner s"
  by (simp add: upload_page_def Let_def split: option.splits sum.splits frame_body.splits)

lemma upload_page_error_state:
  "fst (upload_page ar conv s up) \<noteq> UploadedOk \<Longrightarrow> snd (upload_page ar conv s up) = s"
  by (simp add: upload_page_def Let_def split: option.splits sum.splits frame_body.splits if_splits)

lemma upload_page_schema:
  "columns df \<noteq> [''name'', ''coordinates'']
   \<Longrightarrow> upload_page ar conv s (Some (Inr df)) = (InvalidColumns, s)"
  by (simp add: upload_page_def)

text \<open>A successful upload stores at least one row: a file with no rows is rejected.\<close>

lemma upload_page_ok:
  assumes "upload_page ar conv s up = (UploadedOk, s')"
  shows "\<exists>df. s' = s\<lparr>participants := Some df, page := ''map''\<rparr> \<and> df \<noteq> []"
proof -
  let ?cells = "\<lambda>rows. map (\<lambda>(l, n, c). c) rows"
  from assms obtain fr rows lats lons ds where up: "up = Some (Inr fr)" "body fr = TextRows rows"
    and sh: "shape1 (str_split_expand (?cells rows)) = 2"
    and lats: "to_numeric conv (column 0 (str_split_expand (?cells rows))) = Inr lats"
    and lons: "to_numeric conv (column 1 (str_split_expand (?cells rows))) = Inr lons"
    and ds: "distances ar (zip lats lons) = Inr ds"
    and s': "s' = s\<lparr>participants := Some (make_rows rows lats lons ds), page := ''map''\<rparr>"
    by (auto simp: upload_page_def Let_def split: option.splits sum.splits frame_body.splits if_splits)
  from sh have "rows \<noteq> []" by (auto simp: str_split_expand_def shape1_def)
  moreover have "length lats = length rows"
    using to_numeric_length [OF lats] by (simp add: column_def str_split_expand_def)
  moreover have "length lons = length rows"
    using to_numeric_length [OF lons] by (simp add: column_def str_split_expand_def)
  moreover have "length ds = length (zip lats lons)" using ds by (rule distances_length)
  ultimately have "make_rows rows lats lons ds \<noteq> []"
    by (cases rows; cases lats; cases lons; cases ds) (simp_all add: make_rows_def)
  with s' show ?thesis by blast
qed

lemma upload_page_participants:
  "participants (snd (upload_page ar conv s up)) = participants s
   \<or> (\<exists>df. participants (snd (upload_page ar conv s up)) = Some df \<and> df \<noteq> [])"
proof (cases "fst (upload_page ar conv s up) = UploadedOk")
  case True
  then have "upload_page ar conv s up = (UploadedOk, snd (upload_page ar conv s up))"
    by (simp add: prod_eq_iff)
  then obtain df where "snd (upload_page ar conv s up) = s\<lparr>participants := Some df, page := ''map''\<rparr>"
    and "df \<noteq> []"
    using upload_page_ok by blast
  then show ?thesis by simp
next
  case False
  then show ?thesis by (simp add: upload_page_error_state)
qed

text \<open>
  The upload of a frame of text rows, once the cells are split and converted: what is
  left is the distance of each row.
\<close>

lemma upload_page_rows:
  assumes "columns df = [''name'', ''coordinates'']" and "body df = TextRows rows"
    and "str_split_expand (map (\<lambda>(l, n, c). c) rows) = cs" and "shape1 cs = 2"
    and "to_numeric conv (column 0 cs) = Inr lats"
    and "to_numeric conv (column 1 cs) = Inr lons"
  shows "upload_page ar conv s (Some (Inr df)) =
           (case distances ar (zip lats lons) of
              Inl e \<Rightarrow> (ErrorMessage e, s)
            | Inr ds \<Rightarrow> (UploadedOk, s\<lparr>participants := Some (make_rows rows lats lons ds),
                                       page := ''map''\<rparr>))"
  using assms by (simp add: upload_page_def Let_def del: distances.simps)

lemma distances_one:
  "distances ar [(lat, lon)] =
     (case to_giveaway ar lat lon of Inl e \<Rightarrow> Inl e | Inr d \<Rightarrow> Inr [d])"
  by (simp split: sum.splits)

lemma split1_pair: "split1 ''12.34, -56.78'' = [''12.34'', ''-56.78'']"
  by (simp add: split1_def match_sep_def is_space_def)

lemma expand_pair:
  "str_split_expand [Some ''12.34, -56.78''] = [ [Some ''12.34'', Some ''-56.78''] ]"
  by (simp add: str_split_expand_def cell_parts_def split1_pair shape1_def pad_row_def)

lemma decimal_literal_pair:
  "decimal_literal ''12.34'' = Some (Num (1234 / 100))"
  "decimal_literal ''-56.78'' = Some (Num (- (5678 / 100)))"
  by (simp_all add: decimal_literal_def unsigned_decimal_def digit_of_def)

lemma upload_pair:
  assumes "conv ''12.34'' = Some lat" and "conv ''-56.78'' = Some lon"
  shows "upload_page ar conv s
           (Some (Inr \<lparr>columns = [''name'', ''coordinates''],
                       body = TextRows [(l, n, Some ''12.34, -56.78'')]\<rparr>))
         = (case to_giveaway ar lat lon of
              Inl e \<Rightarrow> (ErrorMessage e, s)
            | Inr d \<Rightarrow>
                (UploadedOk,
                 s\<lparr>participants := Some [\<lparr>label = l, name = n,
                        coordinates = Some ''12.34, -56.78'',
                        latitude = lat, longitude = lon, distance_km = d\<rparr>],
                   page := ''map''\<rparr>))"
proof -
  let ?df = "\<lparr>columns = [''name'', ''coordinates''],
              body = TextRows [(l, n, Some ''12.34, -56.78'')]\<rparr>"
  have "upload_page ar conv s (Some (Inr ?df)) =
           (case distances ar (zip [lat] [lon]) of
              Inl e \<Rightarrow> (ErrorMessage e, s)
            | Inr ds \<Rightarrow> (UploadedOk,
                s\<lparr>participants := Some (make_rows [(l, n, Some ''12.34, -56.78'')] [lat] [lon] ds),
                  page := ''map''\<rparr>))"
  proof (rule upload_page_rows)
    show "str_split_expand (map (\<lambda>(l, n, c). c) [(l, n, Some ''12.34, -56.78'')])
          = [ [Some ''12.34'', Some ''-56.78''] ]"
      by (simp add: expand_pair)
    show "shape1 [ [Some ''12.34'', Some ''-56.78''] ] = 2" by (simp add: shape1_def)
    show "to_numeric conv (column 0 [ [Some ''12.34'', Some ''-56.78''] ]) = Inr [lat]"
      using assms by (simp add: column_def to_numeric_cell_def)
    show "to_numeric conv (column 1 [ [Some ''12.34'', Some ''-56.78''] ]) = Inr [lon]"
      using assms by (simp add: column_def to_numeric_cell_def)
  qed simp_all
  then show ?thesis
    by (simp add: distances_one make_rows_def del: distances.simps split: sum.splits)
qed

lemma upload_pair_exact:
  assumes "conv ''12.34'' = Some lat" and "conv ''-56.78'' = Some lon"
  shows "\<exists>d. upload_page exact_arith conv s
           (Some (Inr \<lparr>columns = [''name'', ''coordinates''],
                       body = TextRows [(l, n, Some ''12.34, -56.78'')]\<rparr>))
         = (UploadedOk,
            s\<lparr>participants := Some [\<lparr>label = l, name = n,
                   coordinates = Some ''12.34, -56.78'',
                   latitude = lat, longitude = lon, distance_km = d\<rparr>],
              page := ''map''\<rparr>)"
proof -
  obtain d where d: "to_giveaway exact_arith lat lon = Inr d"
    unfolding to_giveaway_def using calculate_distance_exact_total by blast
  have up: "upload_page exact_arith conv s
           (Some (Inr \<lparr>columns = [''name'', ''coordinates''],
                       body = TextRows [(l, n, Some ''12.34, -56.78'')]\<rparr>))
         = (UploadedOk,
            s\<lparr>participants := Some [\<lparr>label = l, name = n,
                   coordinates = Some ''12.34, -56.78'',
                   latitude = lat, longitude = lon, distance_km = d\<rparr>],
              page := ''map''\<rparr>)"
    by (simp only: upload_pair [OF assms] d sum.case)
  show ?thesis by (rule exI [of _ d]) (rule up)
qed

lemma expand_short:
  "str_split_expand [Some ''1.0, 2.0'', Some ''3.0'']
   = [ [Some ''1.0'', Some ''2.0''], [Some ''3.0'', None] ]"
  by (simp add: str_split_expand_def cell_parts_def split1_def match_sep_def is_space_def
      shape1_def pad_row_def)

lemma decimal_literal_short:
  "decimal_literal ''1.0'' = Some (Num 1)"
  "decimal_literal ''2.0'' = Some (Num 2)"
  "decimal_literal ''3.0'' = Some (Num 3)"
  by (simp_all add: decimal_literal_def unsigned_decimal_def digit_of_def)

text \<open>The upload of \<open>short_cell_file\<close>.\<close>

lemma short_upload:
  "upload_page ar decimal_literal s (Some (Inr short_cell_file))
    = (case to_giveaway ar (Num 1) (Num 2) of
         Inl e \<Rightarrow> (ErrorMessage e, s)
       | Inr d \<Rightarrow>
           (UploadedOk,
            s\<lparr>participants := Some
                 [\<lparr>label = Position 0, name = ''A'', coordinates = Some ''1.0, 2.0'',
                   latitude = Num 1, longitude = Num 2, distance_km = d\<rparr>,
                  \<lparr>label = Position 1, name = ''B'', coordinates = Some ''3.0'',
                   latitude = Num 3, longitude = NaN, distance_km = NaN\<rparr>],
              page := ''map''\<rparr>))"
proof -
  let ?rows = "[(Position 0, ''A'', Some ''1.0, 2.0''), (Position 1, ''B'', Some ''3.0'')]"
  let ?cs = "[ [Some ''1.0'', Some ''2.0''], [Some ''3.0'', None] ]"
  have "upload_page ar decimal_literal s (Some (Inr short_cell_file)) =
           (case distances ar (zip [Num 1, Num 3] [Num 2, NaN]) of
              Inl e \<Rightarrow> (ErrorMessage e, s)
            | Inr ds \<Rightarrow> (UploadedOk,
                s\<lparr>participants := Some (make_rows ?rows [Num 1, Num 3] [Num 2, NaN] ds),
                  page := ''map''\<rparr>))"
  proof (rule upload_page_rows)
    show "body short_cell_file = TextRows ?rows" by (simp add: short_cell_file_def)
    show "str_split_expand (map (\<lambda>(l, n, c). c) ?rows) = ?cs" by (simp add: expand_short)
    show "shape1 ?cs = 2" by (simp add: shape1_def)
    show "to_numeric decimal_literal (column 0 ?cs) = Inr [Num 1, Num 3]"
      by (simp add: column_def to_numeric_cell_def decimal_literal_short)
    show "to_numeric decimal_literal (column 1 ?cs) = Inr [Num 2, NaN]"
      by (simp add: column_def to_numeric_cell_def decimal_literal_short)
  qed (simp add: short_cell_file_def)
  then show ?thesis
    by (simp add: make_rows_def to_giveaway_NaN split: sum.splits)
qed

lemma short_upload_exact:
  "\<exists>d. upload_page exact_arith decimal_literal s (Some (Inr short_cell_file))
    = (UploadedOk,
       s\<lparr>participants := Some
            [\<lparr>label = Position 0, name = ''A'', coordinates = Some ''1.0, 2.0'',
              latitude = Num 1, longitude = Num 2, distance_km = Num d\<rparr>,
             \<lparr>label = Position 1, name = ''B'', coordinates = Some ''3.0'',
              latitude = Num 3, longitude = NaN, distance_km = NaN\<rparr>],
         page := ''map''\<rparr>)"
proof -
  from to_giveaway_exact_Num [of 1 2]
  obtain d where "to_giveaway exact_arith (Num 1) (Num 2) = Inr (Num d) \<and> 0 \<le> d" ..
  then have d: "to_giveaway exact_arith (Num 1) (Num 2) = Inr (Num d)" by (rule conjunct1)
  have up: "upload_page exact_arith decimal_literal s (Some (Inr short_cell_file))
    = (UploadedOk,
       s\<lparr>participants := Some
            [\<lparr>label = Position 0, name = ''A'', coordinates = Some ''1.0, 2.0'',
              latitude = Num 1, longitude = Num 2, distance_km = Num d\<rparr>,
             \<lparr>label = Position 1, name = ''B'', coordinates = Some ''3.0'',
              latitude = Num 3, longitude = NaN, distance_km = NaN\<rparr>],
         page := ''map''\<rparr>)"
    by (simp only: short_upload d sum.case)
  show ?thesis by (rule exI [of _ d]) (rule up)
qed

section \<open>The draw\<close>

lemma argmin_loop_None:
  "argmin_loop ds k best = None \<longleftrightarrow> best = None \<and> (\<forall>d \<in> set ds. d = NaN)"
  by (induction ds k best rule: argmin_loop.induct) (auto split: option.splits)

lemma argmin_post_NaN:
  "argmin_post ds (Suc k) best i m \<Longrightarrow> argmin_post (NaN # ds) k best i m"
  unfolding argmin_post_def
  apply (elim conjE disjE exE)
   apply simp
  subgoal for n
    apply (rule conjI)
     apply simp
    apply (rule disjI2)
    apply (rule exI [of _ "Suc n"])
    apply (auto simp: less_Suc_eq_0_disj)
    done
  done

lemma argmin_post_first:
  "argmin_post ds (Suc k) (Some (k, x)) i m \<Longrightarrow> argmin_post (Num x # ds) k None i m"
  unfolding argmin_post_def
  apply (elim conjE disjE exE)
  subgoal
    apply (rule conjI)
     apply auto[1]
    apply (rule disjI2)
    apply (rule exI [of _ 0])
    apply auto
    done
  subgoal for n
    apply (rule conjI)
     apply auto[1]
    apply (rule disjI2)
    apply (rule exI [of _ "Suc n"])
    apply (auto simp: less_Suc_eq_0_disj)
    done
  done

lemma argmin_post_replace:
  "x < mb \<Longrightarrow> argmin_post ds (Suc k) (Some (k, x)) i m
   \<Longrightarrow> argmin_post (Num x # ds) k (Some (j, mb)) i m"
  unfolding argmin_post_def
  apply (elim conjE disjE exE)
  subgoal
    apply (rule conjI)
     apply auto[1]
    apply (rule disjI2)
    apply (rule exI [of _ 0])
    apply auto
    done
  subgoal for n
    apply (rule conjI)
     apply auto[1]
    apply (rule disjI2)
    apply (rule exI [of _ "Suc n"])
    apply (auto simp: less_Suc_eq_0_disj)
    done
  done

lemma argmin_post_keep:
  "\<not> x < mb \<Longrightarrow> argmin_post ds (Suc k) (Some (j, mb)) i m
   \<Longrightarrow> argmin_post (Num x # ds) k (Some (j, mb)) i m"
  unfolding argmin_post_def
  apply (elim conjE disjE exE)
  subgoal
    apply (rule conjI)
     apply auto[1]
    apply (rule disjI1)
    apply auto
    done
  subgoal for n
    apply (rule conjI)
     apply auto[1]
    apply (rule disjI2)
    apply (rule exI [of _ "Suc n"])
    apply (auto simp: less_Suc_eq_0_disj)
    done
  done

lemma argmin_loop_Some:
  "argmin_loop ds k best = Some (i, m) \<Longrightarrow> argmin_post ds k best i m"
proof (induction ds k best rule: argmin_loop.induct)
  case (1 k best)
  then show ?case by (simp add: argmin_post_def)
next
  case (2 ds k best)
  then show ?case by (simp add: argmin_post_NaN)
next
  case (3 x ds k best)
  show ?case
  proof (cases best)
    case None
    with 3 show ?thesis by (simp add: argmin_post_first)
  next
    case (Some b)
    obtain j mb where b: "b = (j, mb)" by (cases b)
    with 3 Some show ?thesis
      by (cases "x < mb") (simp_all add: argmin_post_replace argmin_post_keep)
  qed
qed

lemma argmin_Inl: "argmin ds = Inl e \<longleftrightarrow> e = ValueError \<and> (\<forall>d \<in> set ds. d = NaN)"
proof -
  have "argmin_loop ds 0 None = None \<longleftrightarrow> (\<forall>d \<in> set ds. d = NaN)"
    by (simp add: argmin_loop_None)
  then show ?thesis by (cases "argmin_loop ds 0 None") (auto simp: argmin_def)
qed

text \<open>What \<open>argmin\<close> returns, NaN entries included: the first position of the least value.\<close>

lemma argmin_Inr:
  assumes "argmin ds = Inr i"
  shows "\<exists>m. i < length ds \<and> ds ! i = Num m
            \<and> (\<forall>y. Num y \<in> set ds \<longrightarrow> m \<le> y)
            \<and> (\<forall>j < i. \<forall>y. ds ! j = Num y \<longrightarrow> m < y)"
proof -
  from assms obtain m where "argmin_loop ds 0 None = Some (i, m)"
    by (auto simp: argmin_def split: option.splits)
  then have "argmin_post ds 0 None i m" by (rule argmin_loop_Some)
  then show ?thesis by (auto simp: argmin_post_def)
qed

lemma argmin_populated:
  assumes "ds \<noteq> []" and "\<forall>d \<in> set ds. d \<noteq> NaN"
  shows "\<exists>i. argmin ds = Inr i \<and> i < length ds
            \<and> (\<forall>j < length ds. py_le (ds ! i) (ds ! j))
            \<and> (\<forall>j < i. py_lt (ds ! i) (ds ! j))"
proof (cases "argmin ds")
  case (Inl e)
  then have "\<forall>d \<in> set ds. d = NaN" by (simp add: argmin_Inl)
  with assms show ?thesis by (cases ds) auto
next
  case (Inr i)
  from argmin_Inr [OF Inr] obtain m where i: "i < length ds" "ds ! i = Num m"
    and le: "\<forall>y. Num y \<in> set ds \<longrightarrow> m \<le> y"
    and lt: "\<forall>j < i. \<forall>y. ds ! j = Num y \<longrightarrow> m < y" by blast
  have num: "\<exists>y. ds ! j = Num y" if "j < length ds" for j
    using assms(2) that by (cases "ds ! j") (auto simp: in_set_conv_nth)
  have "py_le (ds ! i) (ds ! j)" if "j < length ds" for j
  proof -
    from num [OF that] obtain y where y: "ds ! j = Num y" ..
    with that have "Num y \<in> set ds" by (metis nth_mem)
    with le y i show ?thesis by simp
  qed
  moreover have "py_lt (ds ! i) (ds ! j)" if "j < i" for j
  proof -
    from that i have "j < length ds" by simp
    from num [OF this] obtain y where y: "ds ! j = Num y" ..
    with lt that i show ?thesis by simp
  qed
  ultimately show ?thesis using Inr i by blast
qed

text \<open>With pairwise distinct labels, a label selects the one row that carries it.\<close>

lemma filter_label_distinct:
  assumes "distinct (map label df)" and "i < length df"
  shows "filter (\<lambda>p. label p = label (df ! i)) df = [df ! i]"
  using assms
proof (induction df arbitrary: i)
  case Nil
  then show ?case by simp
next
  case (Cons p df)
  show ?case
  proof (cases i)
    case 0
    have "filter (\<lambda>q. label q = label p) df = []"
      using Cons.prems(1) by (force simp: filter_empty_conv image_iff)
    with 0 show ?thesis by simp
  next
    case (Suc k)
    with Cons.prems have k: "k < length df" and d: "distinct (map label df)" by simp_all
    from k have "label (df ! k) \<in> label ` set df" by simp
    with Cons.prems(1) have "label p \<noteq> label (df ! k)" by auto
    with Suc Cons.IH [OF d k] show ?thesis by simp
  qed
qed

lemma loc_distinct:
  assumes "distinct (map label df)" and "i < length df"
  shows "loc df (label (df ! i)) = Inr (Row (df ! i))"
  by (simp add: loc_def filter_label_distinct [OF assms])

text \<open>
  The draw on a frame with distinct labels and a number in every \<^verbatim>\<open>distance_km\<close>: the
  winner stored is the row at the first position of the least distance.
\<close>

lemma map_page_draw:
  assumes "participants s = Some df" and "df \<noteq> []" and "\<forall>p \<in> set df. distance_km p \<noteq> NaN"
    and "distinct (map label df)"
  shows "\<exists>i < length df.
           map_page s True = (Rerun, s\<lparr>winner := Some (Row (df ! i)), page := ''winner''\<rparr>)
         \<and> (\<forall>j < length df. py_le (distance_km (df ! i)) (distance_km (df ! j)))
         \<and> (\<forall>j < i. py_lt (distance_km (df ! i)) (distance_km (df ! j)))"
proof -
  from assms have "map distance_km df \<noteq> []" "\<forall>d \<in> set (map distance_km df). d \<noteq> NaN" by auto
  from argmin_populated [OF this] obtain i
    where i: "argmin (map distance_km df) = Inr i" "i < length df"
    and le: "\<forall>j < length df. py_le (map distance_km df ! i) (map distance_km df ! j)"
    and lt: "\<forall>j < i. py_lt (map distance_km df ! i) (map distance_km df ! j)" by auto
  from i have "idxmin (map label df) (map distance_km df) = Inr (label (df ! i))"
    by (simp add: idxmin_def)
  with i assms(1,4) have "map_page s True
      = (Rerun, s\<lparr>winner := Some (Row (df ! i)), page := ''winner''\<rparr>)"
    by (simp add: map_page_def loc_distinct)
  with i le lt show ?thesis by auto
qed

lemma draw_example_winner:
  "map_page (map_session draw_example) True
   = (Rerun, \<lparr>page = ''winner'', participants = Some draw_example,
              winner = Some (Row (scored 1 ''P1'' 3))\<rparr>)"
  by (simp add: draw_example_def map_session_def scored_def map_page_def idxmin_def argmin_def
      loc_def)

text \<open>Two rows under one label: whichever is nearer, \<^verbatim>\<open>.loc\<close> gives both.\<close>

lemma draw_repeated:
  assumes "participants s = Some [p, q]" and "label p = label q"
    and "distance_km p = Num x" and "distance_km q = Num y"
  shows "map_page s True = (Rerun, s\<lparr>winner := Some (Rows [p, q]), page := ''winner''\<rparr>)"
  using assms by (simp add: map_page_def idxmin_def argmin_def loc_def)

lemma expand_repeated:
  "str_split_expand [Some ''5, 5'', Some ''6, 6'']
   = [ [Some ''5'', Some ''5''], [Some ''6'', Some ''6''] ]"
  by (simp add: str_split_expand_def cell_parts_def split1_def match_sep_def is_space_def
      shape1_def pad_row_def)

lemma decimal_literal_repeated:
  "decimal_literal ''5'' = Some (Num 5)" "decimal_literal ''6'' = Some (Num 6)"
  by (simp_all add: decimal_literal_def unsigned_decimal_def digit_of_def)

lemma repeated_upload:
  assumes "to_giveaway ar (Num 5) (Num 5) = Inr d1" and "to_giveaway ar (Num 6) (Num 6) = Inr d2"
  shows "upload_page ar decimal_literal s (Some (Inr repeated_label_file))
    = (UploadedOk, s\<lparr>participants := Some (repeated_label_rows d1 d2), page := ''map''\<rparr>)"
proof -
  let ?rows = "[(Field ''g'', ''Ann'', Some ''5, 5''), (Field ''g'', ''Bob'', Some ''6, 6'')]"
  let ?cs = "[ [Some ''5'', Some ''5''], [Some ''6'', Some ''6''] ]"
  have "upload_page ar decimal_literal s (Some (Inr repeated_label_file)) =
           (case distances ar (zip [Num 5, Num 6] [Num 5, Num 6]) of
              Inl e \<Rightarrow> (ErrorMessage e, s)
            | Inr ds \<Rightarrow> (UploadedOk,
                s\<lparr>participants := Some (make_rows ?rows [Num 5, Num 6] [Num 5, Num 6] ds),
                  page := ''map''\<rparr>))"
  proof (rule upload_page_rows)
    show "body repeated_label_file = TextRows ?rows" by (simp add: repeated_label_file_def)
    show "str_split_expand (map (\<lambda>(l, n, c). c) ?rows) = ?cs" by (simp add: expand_repeated)
    show "shape1 ?cs = 2" by (simp add: shape1_def)
    show "to_numeric decimal_literal (column 0 ?cs) = Inr [Num 5, Num 6]"
      by (simp add: column_def to_numeric_cell_def decimal_literal_repeated)
    show "to_numeric decimal_literal (column 1 ?cs) = Inr [Num 5, Num 6]"
      by (simp add: column_def to_numeric_cell_def decimal_literal_repeated)
  qed (simp add: repeated_label_file_def)
  then show ?thesis using assms by (simp add: make_rows_def repeated_label_rows_def)
qed

section \<open>The states the script reaches\<close>

lemma map_page_participants: "participants (snd (map_page s c)) = participants s"
  by (simp add: map_page_def split: option.splits sum.splits)

lemma script_participants:
  "participants (script ar conv s act) = participants s
   \<or> (\<exists>df. participants (script ar conv s act) = Some df \<and> df \<noteq> [])"
proof -
  let ?s = "s\<lparr>page := selected act\<rparr>"
  have "participants (snd (upload_page ar conv ?s (uploaded act))) = participants s
     \<or> (\<exists>df. participants (snd (upload_page ar conv ?s (uploaded act))) = Some df \<and> df \<noteq> [])"
    using upload_page_participants [of ar conv ?s "uploaded act"] by simp
  then show ?thesis
    by (auto simp: script_def Let_def map_page_participants winner_page_guard_def)
qed

lemma script_keeps_rows:
  assumes "participants s \<noteq> Some []"
  shows "participants (script ar conv s act) \<noteq> Some []"
  using script_participants [of ar conv s act] assms by auto

lemma foldl_script_keeps_rows:
  "participants s \<noteq> Some [] \<Longrightarrow> participants (foldl (script ar conv) s acts) \<noteq> Some []"
  by (induction acts arbitrary: s) (simp_all add: script_keeps_rows)

text \<open>No sequence of runs leaves a frame without rows in the session.\<close>

lemma runs_keep_rows: "participants (runs ar conv acts) \<noteq> Some []"
  unfolding runs_def by (rule foldl_script_keeps_rows) (simp add: initial_session_def)

lemma zero_records_runs:
  assumes "zero_records (runs ar conv acts)"
  shows "participants (runs ar conv acts) = None"
  using assms runs_keep_rows [of ar conv acts]
  by (cases "participants (runs ar conv acts)") (simp_all add: zero_records_def)

lemma map_page_no_data: "participants s = None \<Longrightarrow> map_page s c = (NoData, s)"
  by (simp add: map_page_def)

lemma header_only_upload:
  "upload_page ar conv s (Some (Inr header_only_file)) = (InvalidCoordinatesFormat, s)"
  by (simp add: upload_page_def header_only_file_def str_split_expand_def shape1_def)

section \<open>Winner selection\<close>

text \<open>
  Claim C1, at an input where the code departs from it. The file has the header
  \<^verbatim>\<open>name,coordinates\<close> and the rows \<^verbatim>\<open>g,Ann,"5, 5"\<close> and \<^verbatim>\<open>g,Bob,"6, 6"\<close>, so both rows of
  the frame carry the label \<^verbatim>\<open>g\<close>. The upload accepts it, and Draw Winner stores as winner
  not one record but the frame of both rows, Ann and Bob: \<^verbatim>\<open>idxmin\<close> returns the label of
  the nearest row and \<^verbatim>\<open>.loc\<close> returns every row under that label. This holds whatever
  the two distances are.
\<close>

theorem repeated_label_winner:
  "(\<exists>d1 d2. upload_page exact_arith decimal_literal initial_session
               (Some (Inr repeated_label_file))
             = (UploadedOk, map_session (repeated_label_rows (Num d1) (Num d2))))
   \<and> map_page (map_session (repeated_label_rows (Num x) (Num y))) True
       = (Rerun,
          \<lparr>page = ''winner'',
           participants = Some (repeated_label_rows (Num x) (Num y)),
           winner = Some (Rows (repeated_label_rows (Num x) (Num y)))\<rparr>)
   \<and> map name (repeated_label_rows (Num x) (Num y)) = [''Ann'', ''Bob'']"
proof (intro conjI)
  from to_giveaway_exact_Num [of 5 5]
  obtain d1 where "to_giveaway exact_arith (Num 5) (Num 5) = Inr (Num d1) \<and> 0 \<le> d1" ..
  then have d1: "to_giveaway exact_arith (Num 5) (Num 5) = Inr (Num d1)" by (rule conjunct1)
  from to_giveaway_exact_Num [of 6 6]
  obtain d2 where "to_giveaway exact_arith (Num 6) (Num 6) = Inr (Num d2) \<and> 0 \<le> d2" ..
  then have d2: "to_giveaway exact_arith (Num 6) (Num 6) = Inr (Num d2)" by (rule conjunct1)
  have "upload_page exact_arith decimal_literal initial_session (Some (Inr repeated_label_file))
      = (UploadedOk, map_session (repeated_label_rows (Num d1) (Num d2)))"
    by (simp add: repeated_upload [OF d1 d2] initial_session_def map_session_def)
  then show "\<exists>d1 d2. upload_page exact_arith decimal_literal initial_session
               (Some (Inr repeated_label_file))
             = (UploadedOk, map_session (repeated_label_rows (Num d1) (Num d2)))"
    by (intro exI)
next
  have "map_page (map_session (repeated_label_rows (Num x) (Num y))) True
      = (Rerun, map_session (repeated_label_rows (Num x) (Num y))
          \<lparr>winner := Some (Rows (repeated_label_rows (Num x) (Num y))), page := ''winner''\<rparr>)"
    unfolding repeated_label_rows_def
    by (rule draw_repeated [of _ _ _ x y]) (simp_all add: map_session_def)
  then show "map_page (map_session (repeated_label_rows (Num x) (Num y))) True
       = (Rerun,
          \<lparr>page = ''winner'',
           participants = Some (repeated_label_rows (Num x) (Num y)),
           winner = Some (Rows (repeated_label_rows (Num x) (Num y)))\<rparr>)"
    by (simp add: map_session_def)
next
  show "map name (repeated_label_rows (Num x) (Num y)) = [''Ann'', ''Bob'']"
    by (simp add: repeated_label_rows_def)
qed

text \<open>
  Claim C10, at the same input. The leaderboard of line 222 is a frame of participant
  rows and its first row is one of them; the winner stored by the draw is the frame of
  both rows, which is no single row, so it is not the first row of any leaderboard.
\<close>

theorem repeated_label_no_first_row:
  "\<exists>w. snd (map_page (map_session (repeated_label_rows (Num x) (Num y))) True)
        = \<lparr>page = ''winner'',
           participants = Some (repeated_label_rows (Num x) (Num y)),
           winner = Some w\<rparr>
      \<and> (\<forall>r. w \<noteq> Row r)"
proof -
  have "map_page (map_session (repeated_label_rows (Num x) (Num y))) True
      = (Rerun, map_session (repeated_label_rows (Num x) (Num y))
          \<lparr>winner := Some (Rows (repeated_label_rows (Num x) (Num y))), page := ''winner''\<rparr>)"
    unfolding repeated_label_rows_def
    by (rule draw_repeated [of _ _ _ x y]) (simp_all add: map_session_def)
  then have "snd (map_page (map_session (repeated_label_rows (Num x) (Num y))) True)
        = \<lparr>page = ''winner'',
           participants = Some (repeated_label_rows (Num x) (Num y)),
           winner = Some (Rows (repeated_label_rows (Num x) (Num y)))\<rparr>"
    by (simp add: map_session_def)
  then show ?thesis by simp
qed

text \<open>
  Claim C2. In every state the session can be in after any sequence of runs of the
  script, when there is no participant record, Draw Winner ends with the error message
  of line 125: no exception leaves the page and the state, the winner included, is as
  it was. No run stores a frame without rows (a file without rows is rejected by the
  upload), so no participant record means no frame at all.
\<close>

theorem draw_without_records:
  assumes "zero_records (runs ar conv acts)"
  shows "map_page (runs ar conv acts) pressed = (NoData, runs ar conv acts)"
  using assms by (intro map_page_no_data zero_records_runs)

theorem draw_without_records_witness:
  "runs exact_arith decimal_literal
     [\<lparr>selected = ''upload'', uploaded = Some (Inr header_only_file), clicked = False\<rparr>]
   = initial_session
   \<and> zero_records initial_session
   \<and> map_page initial_session True = (NoData, initial_session)"
  using draw_without_records [of exact_arith decimal_literal
      "[\<lparr>selected = ''upload'', uploaded = Some (Inr header_only_file), clicked = False\<rparr>]" True]
  by (simp add: runs_def script_def header_only_upload initial_session_def zero_records_def)

section \<open>Upload and the session state\<close>

text \<open>
  Claim C3, as amended. An upload never changes the stored winner: whatever the file,
  the winner after \<open>upload_page\<close> is the winner before it. A successful upload replaces
  the participants and moves to the map page; the winner drawn from the previous set
  stays until the next draw.
\<close>

theorem upload_leaves_winner: "winner (snd (upload_page ar conv s up)) = winner s"
  by (rule upload_page_winner)

text \<open>
  The claim as stated fails: with a winner stored, a successful upload of another file
  replaces the participants and the old winner is still there.
\<close>

theorem upload_clears_winner_counterexample:
  "fst (upload_page exact_arith decimal_literal loaded_session (Some (Inr one_row_file)))
     = UploadedOk
   \<and> participants (snd (upload_page exact_arith decimal_literal loaded_session
        (Some (Inr one_row_file))))
       \<noteq> participants loaded_session
   \<and> winner (snd (upload_page exact_arith decimal_literal loaded_session
        (Some (Inr one_row_file))))
       = Some (Row (scored 1 ''P1'' 3))"
proof -
  from upload_pair_exact [OF decimal_literal_pair, of loaded_session "Position 0" "''Ann''"]
  obtain d where "upload_page exact_arith decimal_literal loaded_session (Some (Inr one_row_file))
    = (UploadedOk,
       loaded_session\<lparr>participants := Some [\<lparr>label = Position 0, name = ''Ann'',
          coordinates = Some ''12.34, -56.78'',
          latitude = Num (1234 / 100), longitude = Num (- (5678 / 100)), distance_km = d\<rparr>],
        page := ''map''\<rparr>)"
    unfolding one_row_file_def by blast
  then show ?thesis by (simp add: loaded_session_def draw_example_def)
qed

text \<open>
  Claim C7. A frame whose column labels are not exactly \<^verbatim>\<open>name, coordinates\<close> is answered
  with the message of line 94 and the session state is untouched; and whenever an upload
  does not end in success, whatever the reason, the session state is the one before it.
\<close>

theorem schema_rejection_keeps_state:
  "(columns df \<noteq> [''name'', ''coordinates'']
      \<longrightarrow> upload_page ar conv s (Some (Inr df)) = (InvalidColumns, s))
   \<and> (fst (upload_page ar conv s up) \<noteq> UploadedOk \<longrightarrow> snd (upload_page ar conv s up) = s)"
  by (simp add: upload_page_schema upload_page_error_state)

theorem schema_rejection_keeps_state_witness:
  "columns three_column_file \<noteq> [''name'', ''coordinates'']
   \<and> upload_page binary64 decimal_literal loaded_session (Some (Inr three_column_file))
       = (InvalidColumns, loaded_session)
   \<and> fst (upload_page binary64 decimal_literal loaded_session (Some (Inr three_column_file)))
       \<noteq> UploadedOk
   \<and> participants (snd (upload_page binary64 decimal_literal loaded_session
        (Some (Inr three_column_file))))
       = Some draw_example"
  using schema_rejection_keeps_state
    [of three_column_file binary64 decimal_literal loaded_session "Some (Inr three_column_file)"]
  by (simp add: three_column_file_def loaded_session_def)

text \<open>
  Claim C9. The cell \<^verbatim>\<open>12.34, -56.78\<close> is cut into \<^verbatim>\<open>12.34\<close> and \<^verbatim>\<open>-56.78\<close>, the blank after
  the comma dropped, and the two parts are what is converted: in every arithmetic the
  upload either ends with the exception of the distance calculation or stores the row
  with the conversion of the first part as latitude and that of the second as
  longitude, and without rounding it stores the row. With the conversion of decimal
  literals the two values are 12.34 and -56.78.
\<close>

theorem coordinates_cell_parsed:
  assumes "conv ''12.34'' = Some lat" and "conv ''-56.78'' = Some lon"
  shows "split1 ''12.34, -56.78'' = [''12.34'', ''-56.78'']
       \<and> upload_page ar conv s
           (Some (Inr \<lparr>columns = [''name'', ''coordinates''],
                       body = TextRows [(l, n, Some ''12.34, -56.78'')]\<rparr>))
         = (case to_giveaway ar lat lon of
              Inl e \<Rightarrow> (ErrorMessage e, s)
            | Inr d \<Rightarrow>
                (UploadedOk,
                 s\<lparr>participants := Some [\<lparr>label = l, name = n,
                        coordinates = Some ''12.34, -56.78'',
                        latitude = lat, longitude = lon, distance_km = d\<rparr>],
                   page := ''map''\<rparr>))
       \<and> (\<exists>d. upload_page exact_arith conv s
             (Some (Inr \<lparr>columns = [''name'', ''coordinates''],
                         body = TextRows [(l, n, Some ''12.34, -56.78'')]\<rparr>))
           = (UploadedOk,
              s\<lparr>participants := Some [\<lparr>label = l, name = n,
                     coordinates = Some ''12.34, -56.78'',
                     latitude = lat, longitude = lon, distance_km = d\<rparr>],
                page := ''map''\<rparr>))"
proof (intro conjI)
  show "split1 ''12.34, -56.78'' = [''12.34'', ''-56.78'']" by (rule split1_pair)
  show "upload_page ar conv s
           (Some (Inr \<lparr>columns = [''name'', ''coordinates''],
                       body = TextRows [(l, n, Some ''12.34, -56.78'')]\<rparr>))
         = (case to_giveaway ar lat lon of
              Inl e \<Rightarrow> (ErrorMessage e, s)
            | Inr d \<Rightarrow>
                (UploadedOk,
                 s\<lparr>participants := Some [\<lparr>label = l, name = n,
                        coordinates = Some ''12.34, -56.78'',
                        latitude = lat, longitude = lon, distance_km = d\<rparr>],
                   page := ''map''\<rparr>))"
    using assms by (rule upload_pair)
  show "\<exists>d. upload_page exact_arith conv s
             (Some (Inr \<lparr>columns = [''name'', ''coordinates''],
                         body = TextRows [(l, n, Some ''12.34, -56.78'')]\<rparr>))
           = (UploadedOk,
              s\<lparr>participants := Some [\<lparr>label = l, name = n,
                     coordinates = Some ''12.34, -56.78'',
                     latitude = lat, longitude = lon, distance_km = d\<rparr>],
                page := ''map''\<rparr>)"
    using assms by (rule upload_pair_exact)
qed

theorem coordinates_cell_parsed_witness:
  "decimal_literal ''12.34'' = Some (Num (1234 / 100))
   \<and> decimal_literal ''-56.78'' = Some (Num (- (5678 / 100)))
   \<and> (\<exists>d. upload_page exact_arith decimal_literal initial_session (Some (Inr one_row_file))
         = (UploadedOk,
            \<lparr>page = ''map'',
             participants = Some [\<lparr>label = Position 0, name = ''Ann'',
                coordinates = Some ''12.34, -56.78'',
                latitude = Num (1234 / 100), longitude = Num (- (5678 / 100)),
                distance_km = d\<rparr>],
             winner = None\<rparr>))"
proof -
  note coordinates_cell_parsed [OF decimal_literal_pair, of exact_arith initial_session
      "Position 0" "''Ann''", THEN conjunct2, THEN conjunct2]
  then show ?thesis by (simp add: decimal_literal_pair one_row_file_def initial_session_def)
qed

text \<open>
  Claim C4, at the input where the code departs from it. The second row's cell has no
  comma and yields one part; the frame of parts still has two columns because the first
  row fills them, so the check of line 98 passes and the missing part becomes NaN. In no
  arithmetic is the file answered with the message of line 99: the upload ends with the
  exception of the distance calculation or stores both rows, and without rounding it
  stores them.
\<close>

theorem short_cell_accepted:
  "upload_page ar decimal_literal s (Some (Inr short_cell_file))
    = (case to_giveaway ar (Num 1) (Num 2) of
         Inl e \<Rightarrow> (ErrorMessage e, s)
       | Inr d \<Rightarrow>
           (UploadedOk,
            s\<lparr>participants := Some
                 [\<lparr>label = Position 0, name = ''A'', coordinates = Some ''1.0, 2.0'',
                   latitude = Num 1, longitude = Num 2, distance_km = d\<rparr>,
                  \<lparr>label = Position 1, name = ''B'', coordinates = Some ''3.0'',
                   latitude = Num 3, longitude = NaN, distance_km = NaN\<rparr>],
              page := ''map''\<rparr>))
   \<and> (\<exists>d. upload_page exact_arith decimal_literal s (Some (Inr short_cell_file))
        = (UploadedOk,
           s\<lparr>participants := Some
                [\<lparr>label = Position 0, name = ''A'', coordinates = Some ''1.0, 2.0'',
                  latitude = Num 1, longitude = Num 2, distance_km = Num d\<rparr>,
                 \<lparr>label = Position 1, name = ''B'', coordinates = Some ''3.0'',
                  latitude = Num 3, longitude = NaN, distance_km = NaN\<rparr>],
             page := ''map''\<rparr>))"
  using short_upload [of ar s] short_upload_exact [of s] by (rule conjI)

section \<open>The distance\<close>

text \<open>
  Claim C6, as amended. There is no clamp. In an arithmetic that keeps signs, the
  function raises \<^verbatim>\<open>ValueError\<close> when \<^verbatim>\<open>a\<close> as computed is negative or \<^verbatim>\<open>1-a\<close> as computed
  is negative, and in every other case it returns a number that is not negative.
\<close>

theorem distance_without_clamp:
  assumes "sign_preserving ar"
  shows "if haversine_a ar lat1 lon1 lat2 lon2 < 0
            \<or> rnd ar (1 - haversine_a ar lat1 lon1 lat2 lon2) < 0
         then calculate_distance ar (Num lat1) (Num lon1) (Num lat2) (Num lon2) = Inl ValueError
         else \<exists>d. calculate_distance ar (Num lat1) (Num lon1) (Num lat2) (Num lon2) = Inr (Num d)
                  \<and> 0 \<le> d"
proof (cases "haversine_a ar lat1 lon1 lat2 lon2 < 0
            \<or> rnd ar (1 - haversine_a ar lat1 lon1 lat2 lon2) < 0")
  case True
  then have "calculate_distance ar (Num lat1) (Num lon1) (Num lat2) (Num lon2) = Inl ValueError"
    by (rule calculate_distance_raises)
  with True show ?thesis by (simp only: if_True)
next
  case False
  then have "0 \<le> haversine_a ar lat1 lon1 lat2 lon2"
    and "0 \<le> rnd ar (1 - haversine_a ar lat1 lon1 lat2 lon2)" by simp_all
  with assms have "\<exists>d. calculate_distance ar (Num lat1) (Num lon1) (Num lat2) (Num lon2)
      = Inr (Num d) \<and> 0 \<le> d"
    by (rule calculate_distance_returns)
  with False show ?thesis by (simp only: if_False)
qed

theorem distance_without_clamp_witness:
  "sign_preserving binary64
   \<and> haversine_a binary64 8 0 8 0 = 0
   \<and> rnd binary64 (1 - haversine_a binary64 8 0 8 0) = 1
   \<and> (\<exists>d. calculate_distance binary64 (Num 8) (Num 0) (Num 8) (Num 0) = Inr (Num d) \<and> 0 \<le> d)"
proof -
  have a: "haversine_a binary64 8 0 8 0 = 0"
    by (rule haversine_a_same) (rule binary64_exact_at_zero)+
  then have b: "rnd binary64 (1 - haversine_a binary64 8 0 8 0) = 1"
    by (simp add: binary64_exact_at_zero)
  from distance_without_clamp [OF sign_preserving_binary64, of 8 0 8 0]
  have "\<exists>d. calculate_distance binary64 (Num 8) (Num 0) (Num 8) (Num 0) = Inr (Num d) \<and> 0 \<le> d"
    unfolding b unfolding a by simp
  with a b show ?thesis by (simp only: sign_preserving_binary64 simp_thms)
qed

text \<open>
  The claim as stated fails. In binary64, for the antipodal points \<open>(8, 0)\<close> and
  \<open>(-8, 180)\<close> the value of \<^verbatim>\<open>a\<close> is \<^verbatim>\<open>1.0000000000000002\<close>, \<^verbatim>\<open>1-a\<close> is negative and
  \<^verbatim>\<open>math.sqrt\<close> raises.
\<close>

theorem distance_domain_error_counterexample:
  "haversine_a binary64 8 0 (- 8) 180 = 4503599627370497 / 2 ^ 52
   \<and> rnd binary64 (1 - haversine_a binary64 8 0 (- 8) 180) = - (1 / 2 ^ 52)
   \<and> calculate_distance binary64 (Num 8) (Num 0) (Num (- 8)) (Num 180) = Inl ValueError"
  using overshoot_haversine_a overshoot_rnd_one_minus_a overshoot_raises by (intro conjI)

text \<open>
  Claim C8. In every arithmetic that is exact at 0 and at 1 (rounding leaves 0 and 1 as
  they are, the sine of 0 is 0 and the angle of the point \<open>(1, 0)\<close> is 0), the distance
  from a point to itself is exactly 0. Binary64 is such an arithmetic.
\<close>

theorem distance_to_itself_zero:
  assumes "rnd ar 0 = 0" and "rnd ar 1 = 1" and "fsin ar 0 = 0" and "fatan2 ar 0 1 = 0"
  shows "calculate_distance ar (Num lat) (Num lon) (Num lat) (Num lon) = Inr (Num 0)"
  using assms by (rule calculate_distance_same)

theorem distance_to_itself_zero_witness:
  "rnd binary64 0 = 0 \<and> rnd binary64 1 = 1 \<and> fsin binary64 0 = 0 \<and> fatan2 binary64 0 1 = 0
   \<and> calculate_distance binary64 (Num (fst GIVEAWAY_LOCATION)) (Num (snd GIVEAWAY_LOCATION))
        (Num (fst GIVEAWAY_LOCATION)) (Num (snd GIVEAWAY_LOCATION)) = Inr (Num 0)"
  using distance_to_itself_zero [OF binary64_exact_at_zero,
      of "fst GIVEAWAY_LOCATION" "snd GIVEAWAY_LOCATION"]
  by (simp only: binary64_exact_at_zero simp_thms)

end
